theory Spec2Isabelle
  imports Complex_Main "HOL-Library.AList" "HOL-Library.Log_Nat"
begin

section \<open>The dispatch server of \<^verbatim>\<open>backend\<close>: data model\<close>

text \<open>
  The server keeps three insertion-ordered JavaScript \<^verbatim>\<open>Map\<close>s in one global object
  \<^verbatim>\<open>state\<close> and reacts to socket.io events. Each handler runs to completion on the
  single-threaded event loop, so a handler is a function from the state before to the
  state after together with the messages it emitted, in order.

  \<^item> A \<^verbatim>\<open>Map\<close> is an association list: \<^const>\<open>AList.update\<close> overwrites in place or appends
    (as \<^verbatim>\<open>Map.set\<close>), \<^const>\<open>AList.delete\<close> removes (as \<^verbatim>\<open>Map.delete\<close>), \<^const>\<open>map_of\<close> looks up
    (as \<^verbatim>\<open>Map.get\<close>), and the list order is the order of \<^verbatim>\<open>Map.forEach\<close>.
  \<^item> Driver objects are shared: \<^verbatim>\<open>state.drivers\<close> and \<^verbatim>\<open>emergency.assignedDriver\<close> hold
    references to the same object, which is mutated in place. They live in an explicit
    store \<open>objects\<close>, addressed by allocation index.
  \<^item> \<^verbatim>\<open>uuidv4()\<close> is a supply of pairwise distinct identifiers: the \<open>n\<close>-th call returns \<open>n\<close>.
  \<^item> A property read on \<^verbatim>\<open>undefined\<close> throws \<^verbatim>\<open>TypeError\<close>; nothing catches it, so the handler's
    result is then the error.
  \<^item> An offer's \<^verbatim>\<open>distance\<close> is kept as the call of \<^verbatim>\<open>calculateDistance\<close> that computes it,
    the constructor \<open>CalculateDistance\<close> applied to the two locations; the string the call
    returns is \<open>distance_text\<close> of it, defined with the distance estimator below.
\<close>

type_synonym socket_id = string
type_synonym uuid = nat
type_synonym ref = nat

datatype error = TypeError

record location =
  lat :: real
  lng :: real
  address :: "string option"

datatype distance = CalculateDistance location location

datatype driver_status = Available | Busy

datatype emergency_status = Searching | Accepted | Cancelled

record driver =
  d_id :: uuid
  d_socketId :: socket_id
  d_name :: string
  d_vehicle :: string
  d_location :: "location option"
  d_status :: driver_status

record emergency =
  e_id :: uuid
  e_patientSocketId :: socket_id
  e_location :: location
  e_severity :: string
  e_type :: string
  e_status :: emergency_status
  e_timestamp :: nat
  e_assignedDriver :: "ref option"

record hospital =
  h_id :: uuid
  h_socketId :: socket_id
  h_name :: string
  h_beds :: "int option"
  h_icu :: "int option"
  h_location :: location

record state =
  drivers :: "(socket_id \<times> ref) list"
  emergencies :: "(uuid \<times> emergency) list"
  hospitals :: "(socket_id \<times> hospital) list"
  objects :: "driver list"
  next_uuid :: nat

text \<open>Event payloads as the clients send them: every field may be absent.\<close>

record register_data =
  reg_name :: "string option"
  reg_vehicle :: "string option"
  reg_location :: "location option"

record sos_data =
  sos_location :: "location option"
  sos_severity :: "string option"
  sos_type :: "string option"

record hospital_data =
  hosp_name :: "string option"
  hosp_beds :: "int option"
  hosp_icu :: "int option"
  hosp_location :: "location option"

record beds_data =
  upd_beds :: "int option"
  upd_icu :: "int option"

text \<open>Messages the server emits; an emit is the target room (a socket id) and the message.\<close>

datatype message =
    DriverRegistered bool driver
  | EmergencyDriverAssigned uuid string string string
  | DriverAssignmentConfirmed uuid emergency driver
  | HospitalIncomingPatient uuid string string string
  | EmergencyCreated uuid emergency_status
  | EmergencyNewRequest uuid location string string distance
  | EmergencyNoDrivers uuid
  | EmergencyCancelled uuid
  | HospitalRegistered bool hospital

type_synonym emit = "socket_id \<times> message"

datatype event =
    DriverRegister "register_data option"
  | DriverUpdateLocation "location option"
  | DriverAccept uuid
  | DriverReject uuid
  | PatientSos nat "sos_data option"
  | PatientCancel uuid
  | HospitalRegister "hospital_data option"
  | HospitalUpdateBeds "beds_data option"
  | Disconnect

section \<open>Helpers\<close>

text \<open>\<^verbatim>\<open>x || d\<close> on an optional string, number or object: the empty string and \<open>0\<close> are falsy.\<close>

definition str_or :: "string option \<Rightarrow> string \<Rightarrow> string" where
  "str_or v d = (case v of None \<Rightarrow> d | Some s \<Rightarrow> if s = [] then d else s)"

definition num_or :: "int option \<Rightarrow> int \<Rightarrow> int" where
  "num_or v d = (case v of None \<Rightarrow> d | Some n \<Rightarrow> if n = 0 then d else n)"

definition obj_or :: "'a option \<Rightarrow> 'a \<Rightarrow> 'a" where
  "obj_or v d = (case v of None \<Rightarrow> d | Some x \<Rightarrow> x)"

definition uuidv4 :: "state \<Rightarrow> uuid \<times> state" where
  "uuidv4 st = (next_uuid st, st\<lparr>next_uuid := Suc (next_uuid st)\<rparr>)"

definition init_state :: state where
  "init_state = \<lparr>drivers = [], emergencies = [], hospitals = [], objects = [], next_uuid = 0\<rparr>"

definition mumbai :: location where
  "mumbai = \<lparr>lat = 19.076, lng = 72.8777, address = None\<rparr>"

definition unknown_location :: location where
  "unknown_location = \<lparr>lat = 19.076, lng = 72.8777, address = Some ''Unknown Location''\<rparr>"

definition hospital_default_location :: location where
  "hospital_default_location = \<lparr>lat = 19.08, lng = 72.88, address = None\<rparr>"

text \<open>
  The loop of \<^verbatim>\<open>broadcastToAvailableDrivers\<close>: one offer per driver whose status is
  available, in map order, counting them. \<^verbatim>\<open>calculateDistance\<close> reads \<^verbatim>\<open>loc1.lat\<close> of the
  driver's location, which throws when \<^verbatim>\<open>driver:update-location\<close> stored \<^verbatim>\<open>undefined\<close>.
\<close>

fun notify_drivers :: "emergency \<Rightarrow> driver list \<Rightarrow> (socket_id \<times> ref) list \<Rightarrow> error + (emit list \<times> nat)" where
  "notify_drivers e objs [] = Inr ([], 0)"
| "notify_drivers e objs ((socketId, r) # ds) =
     (if d_status (objs ! r) = Available then
        (case d_location (objs ! r) of
           None \<Rightarrow> Inl TypeError
         | Some l \<Rightarrow>
             (case notify_drivers e objs ds of
                Inl err \<Rightarrow> Inl err
              | Inr (out, notified) \<Rightarrow>
                  Inr ((socketId, EmergencyNewRequest (e_id e) (e_location e) (e_severity e) (e_type e)
                          (CalculateDistance l (e_location e))) # out, Suc notified)))
      else notify_drivers e objs ds)"

definition broadcastToAvailableDrivers :: "emergency \<Rightarrow> state \<Rightarrow> error + emit list" where
  "broadcastToAvailableDrivers e st =
     (case notify_drivers e (objects st) (drivers st) of
        Inl err \<Rightarrow> Inl err
      | Inr (out, notified) \<Rightarrow>
          Inr (out @ (if notified = 0 then [(e_patientSocketId e, EmergencyNoDrivers (e_id e))] else [])))"

section \<open>Socket handlers\<close>

definition driver_register :: "socket_id \<Rightarrow> register_data option \<Rightarrow> state \<Rightarrow> error + (state \<times> emit list)" where
  "driver_register sock data st =
     (case data of
        None \<Rightarrow> Inl TypeError
      | Some d \<Rightarrow>
          (let (uid, st1) = uuidv4 st;
               driver = \<lparr>d_id = uid, d_socketId = sock,
                         d_name = str_or (reg_name d) ''Unknown Driver'',
                         d_vehicle = str_or (reg_vehicle d) ''MH-XX-XXXX'',
                         d_location = Some (obj_or (reg_location d) mumbai),
                         d_status = Available\<rparr>;
               r = length (objects st1)
           in Inr (st1\<lparr>objects := objects st1 @ [driver],
                       drivers := AList.update sock r (drivers st1)\<rparr>,
                   [(sock, DriverRegistered True driver)])))"

definition driver_update_location :: "socket_id \<Rightarrow> location option \<Rightarrow> state \<Rightarrow> error + (state \<times> emit list)" where
  "driver_update_location sock loc st =
     (case map_of (drivers st) sock of
        Some r \<Rightarrow> Inr (st\<lparr>objects := (objects st)[r := (objects st ! r)\<lparr>d_location := loc\<rparr>]\<rparr>, [])
      | None \<Rightarrow> Inr (st, []))"

definition driver_accept :: "socket_id \<Rightarrow> uuid \<Rightarrow> state \<Rightarrow> error + (state \<times> emit list)" where
  "driver_accept sock emergencyId st =
     (case (map_of (drivers st) sock, map_of (emergencies st) emergencyId) of
        (Some r, Some e) \<Rightarrow>
          if e_status e = Searching then
            (let driver = (objects st ! r)\<lparr>d_status := Busy\<rparr>;
                 emergency = e\<lparr>e_status := Accepted, e_assignedDriver := Some r\<rparr>
             in Inr (st\<lparr>objects := (objects st)[r := driver],
                         emergencies := AList.update emergencyId emergency (emergencies st)\<rparr>,
                     [(e_patientSocketId e,
                         EmergencyDriverAssigned emergencyId (d_name driver) (d_vehicle driver) ''5 mins''),
                      (sock, DriverAssignmentConfirmed emergencyId emergency driver)]
                     @ map (\<lambda>(hospitalSocketId, hospital).
                              (hospitalSocketId,
                               HospitalIncomingPatient emergencyId (e_severity e) ''8 mins'' (d_vehicle driver)))
                           (hospitals st)))
          else Inr (st, [])
      | _ \<Rightarrow> Inr (st, []))"

definition driver_reject :: "socket_id \<Rightarrow> uuid \<Rightarrow> state \<Rightarrow> error + (state \<times> emit list)" where
  "driver_reject sock emergencyId st =
     (case map_of (emergencies st) emergencyId of
        Some e \<Rightarrow>
          (case broadcastToAvailableDrivers e st of
             Inl err \<Rightarrow> Inl err
           | Inr out \<Rightarrow> Inr (st, out))
      | None \<Rightarrow> Inr (st, []))"

text \<open>The second argument is the reading of \<^verbatim>\<open>Date.now()\<close> when the event is handled.\<close>

definition patient_sos :: "socket_id \<Rightarrow> nat \<Rightarrow> sos_data option \<Rightarrow> state \<Rightarrow> error + (state \<times> emit list)" where
  "patient_sos sock now data st =
     (let (emergencyId, st1) = uuidv4 st in
      case data of
        None \<Rightarrow> Inl TypeError
      | Some d \<Rightarrow>
          (let emergency = \<lparr>e_id = emergencyId, e_patientSocketId = sock,
                            e_location = obj_or (sos_location d) unknown_location,
                            e_severity = str_or (sos_severity d) ''high'',
                            e_type = str_or (sos_type d) ''accident'',
                            e_status = Searching, e_timestamp = now, e_assignedDriver = None\<rparr>;
               st2 = st1\<lparr>emergencies := AList.update emergencyId emergency (emergencies st1)\<rparr>
           in case broadcastToAvailableDrivers emergency st2 of
                Inl err \<Rightarrow> Inl err
              | Inr out \<Rightarrow> Inr (st2, (sock, EmergencyCreated emergencyId Searching) # out)))"

definition patient_cancel :: "socket_id \<Rightarrow> uuid \<Rightarrow> state \<Rightarrow> error + (state \<times> emit list)" where
  "patient_cancel sock emergencyId st =
     (case map_of (emergencies st) emergencyId of
        Some e \<Rightarrow>
          if e_patientSocketId e = sock then
            (let st1 = st\<lparr>emergencies :=
                           AList.update emergencyId (e\<lparr>e_status := Cancelled\<rparr>) (emergencies st)\<rparr>;
                 (st2, out) =
                   (case e_assignedDriver e of
                      Some a \<Rightarrow>
                        (let driverSocketId = d_socketId (objects st1 ! a) in
                         ((case map_of (drivers st1) driverSocketId of
                             Some r \<Rightarrow> st1\<lparr>objects := (objects st1)[r := (objects st1 ! r)\<lparr>d_status := Available\<rparr>]\<rparr>
                           | None \<Rightarrow> st1),
                          [(driverSocketId, EmergencyCancelled emergencyId)]))
                    | None \<Rightarrow> (st1, []))
             in Inr (st2\<lparr>emergencies := AList.delete emergencyId (emergencies st2)\<rparr>, out))
          else Inr (st, [])
      | None \<Rightarrow> Inr (st, []))"

definition hospital_register :: "socket_id \<Rightarrow> hospital_data option \<Rightarrow> state \<Rightarrow> error + (state \<times> emit list)" where
  "hospital_register sock data st =
     (case data of
        None \<Rightarrow> Inl TypeError
      | Some d \<Rightarrow>
          (let (uid, st1) = uuidv4 st;
               hospital = \<lparr>h_id = uid, h_socketId = sock,
                           h_name = str_or (hosp_name d) ''City Hospital'',
                           h_beds = Some (num_or (hosp_beds d) 10),
                           h_icu = Some (num_or (hosp_icu d) 2),
                           h_location = obj_or (hosp_location d) hospital_default_location\<rparr>
           in Inr (st1\<lparr>hospitals := AList.update sock hospital (hospitals st1)\<rparr>,
                   [(sock, HospitalRegistered True hospital)])))"

definition hospital_update_beds :: "socket_id \<Rightarrow> beds_data option \<Rightarrow> state \<Rightarrow> error + (state \<times> emit list)" where
  "hospital_update_beds sock data st =
     (case map_of (hospitals st) sock of
        Some h \<Rightarrow>
          (case data of
             None \<Rightarrow> Inl TypeError
           | Some d \<Rightarrow>
               Inr (st\<lparr>hospitals := AList.update sock (h\<lparr>h_beds := upd_beds d, h_icu := upd_icu d\<rparr>) (hospitals st)\<rparr>, []))
      | None \<Rightarrow> Inr (st, []))"

definition disconnect :: "socket_id \<Rightarrow> state \<Rightarrow> error + (state \<times> emit list)" where
  "disconnect sock st =
     Inr (st\<lparr>drivers := AList.delete sock (drivers st),
             hospitals := AList.delete sock (hospitals st)\<rparr>, [])"

fun handle :: "socket_id \<Rightarrow> event \<Rightarrow> state \<Rightarrow> error + (state \<times> emit list)" where
  "handle sock (DriverRegister data) st = driver_register sock data st"
| "handle sock (DriverUpdateLocation loc) st = driver_update_location sock loc st"
| "handle sock (DriverAccept emergencyId) st = driver_accept sock emergencyId st"
| "handle sock (DriverReject emergencyId) st = driver_reject sock emergencyId st"
| "handle sock (PatientSos now data) st = patient_sos sock now data st"
| "handle sock (PatientCancel emergencyId) st = patient_cancel sock emergencyId st"
| "handle sock (HospitalRegister data) st = hospital_register sock data st"
| "handle sock (HospitalUpdateBeds data) st = hospital_update_beds sock data st"
| "handle sock Disconnect st = disconnect sock st"

text \<open>
  A run of the server: the events in the order the event loop handles them, each with the
  socket it arrived on. An uncaught error ends the run.
\<close>

fun run :: "(socket_id \<times> event) list \<Rightarrow> state \<Rightarrow> error + (state \<times> emit list)" where
  "run [] st = Inr (st, [])"
| "run ((sock, ev) # evs) st =
     (case handle sock ev st of
        Inl err \<Rightarrow> Inl err
      | Inr (st1, out1) \<Rightarrow>
          (case run evs st1 of
             Inl err \<Rightarrow> Inl err
           | Inr (st2, out2) \<Rightarrow> Inr (st2, out1 @ out2)))"

inductive reachable :: "state \<Rightarrow> bool" where
  reachable_init: "reachable init_state"
| reachable_step: "reachable st \<Longrightarrow> handle sock ev st = Inr (st', out) \<Longrightarrow> reachable st'"


section \<open>Invariants of the reachable states\<close>

text \<open>
  Every reference held in \<^verbatim>\<open>state.drivers\<close> points to an allocated driver object whose
  \<^verbatim>\<open>socketId\<close> is the key it is stored under.
\<close>

definition inv_drivers :: "state \<Rightarrow> bool" where
  "inv_drivers st \<longleftrightarrow>
     (\<forall>sid r. map_of (drivers st) sid = Some r \<longrightarrow>
        r < length (objects st) \<and> d_socketId (objects st ! r) = sid)"

text \<open>
  Every emergency in the ledger is stored under its own id, which \<^verbatim>\<open>uuidv4\<close> has already
  issued; it is searching or accepted, accepted exactly when a driver is assigned, and the
  assigned reference is allocated.
\<close>

definition inv_ledger :: "state \<Rightarrow> bool" where
  "inv_ledger st \<longleftrightarrow>
     (\<forall>k e. map_of (emergencies st) k = Some e \<longrightarrow>
        k < next_uuid st \<and> e_id e = k \<and> e_status e \<noteq> Cancelled \<and>
        (e_status e = Accepted \<longleftrightarrow> e_assignedDriver e \<noteq> None) \<and>
        (\<forall>a. e_assignedDriver e = Some a \<longrightarrow> a < length (objects st)))"

text \<open>A registered driver that is busy is the assigned driver of an accepted emergency.\<close>

definition inv_busy :: "state \<Rightarrow> bool" where
  "inv_busy st \<longleftrightarrow>
     (\<forall>sid r. map_of (drivers st) sid = Some r \<and> d_status (objects st ! r) = Busy \<longrightarrow>
        (\<exists>k e. map_of (emergencies st) k = Some e \<and> e_status e = Accepted \<and>
               e_assignedDriver e = Some r))"

definition state_ok :: "state \<Rightarrow> bool" where
  "state_ok st \<longleftrightarrow> inv_drivers st \<and> inv_ledger st \<and> inv_busy st"

section \<open>Concrete runs\<close>

text \<open>The state a run from the initial state ends in (the initial state if the run throws).\<close>

definition state_after :: "(socket_id \<times> event) list \<Rightarrow> state" where
  "state_after evs = (case run evs init_state of Inl _ \<Rightarrow> init_state | Inr (st, _) \<Rightarrow> st)"

definition no_fields :: register_data where
  "no_fields = \<lparr>reg_name = None, reg_vehicle = None, reg_location = None\<rparr>"

definition no_sos_fields :: sos_data where
  "no_sos_fields = \<lparr>sos_location = None, sos_severity = None, sos_type = None\<rparr>"

text \<open>
  Two drivers register (driver ids 0 and 1, objects 0 and 1), then a patient raises an
  emergency, which gets id 2 and is offered to both.
\<close>

definition two_drivers_one_request :: "(socket_id \<times> event) list" where
  "two_drivers_one_request =
     [(''d1'', DriverRegister (Some no_fields)),
      (''d2'', DriverRegister (Some no_fields)),
      (''p'', PatientSos 0 (Some no_sos_fields))]"

text \<open>One driver registers (object 0), a patient raises two emergencies (ids 1 and 2), both
  offered to the driver while it is available, and the driver accepts both.\<close>

definition one_driver_two_requests :: "(socket_id \<times> event) list" where
  "one_driver_two_requests =
     [(''d1'', DriverRegister (Some no_fields)),
      (''p'', PatientSos 0 (Some no_sos_fields)),
      (''p'', PatientSos 5 (Some no_sos_fields)),
      (''d1'', DriverAccept 1),
      (''d1'', DriverAccept 2)]"

section \<open>Responder exclusivity as the specification words it\<close>

text \<open>The accepted emergencies in the ledger whose assigned driver is the object \<open>r\<close>.\<close>

definition accepted_by :: "state \<Rightarrow> ref \<Rightarrow> (uuid \<times> emergency) list" where
  "accepted_by st r =
     filter (\<lambda>(k, e). e_status e = Accepted \<and> e_assignedDriver e = Some r) (emergencies st)"

text \<open>
  The specification's invariant: a registered responder is busy if and only if it is the
  assigned responder of exactly one accepted request.
\<close>

definition responder_exclusive :: "state \<Rightarrow> bool" where
  "responder_exclusive st \<longleftrightarrow>
     list_all (\<lambda>(sid, r). (d_status (objects st ! r) = Busy) = (length (accepted_by st r) = 1))
       (drivers st)"

definition no_hospital_fields :: hospital_data where
  "no_hospital_fields = \<lparr>hosp_name = None, hosp_beds = None, hosp_icu = None, hosp_location = None\<rparr>"

text \<open>A driver (object 0) and two hospitals register, then a patient raises emergency 3.\<close>

definition driver_hospitals_request :: "(socket_id \<times> event) list" where
  "driver_hospitals_request =
     [(''d1'', DriverRegister (Some no_fields)),
      (''h1'', HospitalRegister (Some no_hospital_fields)),
      (''h2'', HospitalRegister (Some no_hospital_fields)),
      (''p'', PatientSos 0 (Some no_sos_fields))]"

text \<open>Three drivers register (objects 0, 1, 2), a patient raises emergency 3, and the first
  driver accepts it.\<close>

definition three_drivers_accepted :: "(socket_id \<times> event) list" where
  "three_drivers_accepted =
     [(''d1'', DriverRegister (Some no_fields)),
      (''d2'', DriverRegister (Some no_fields)),
      (''d3'', DriverRegister (Some no_fields)),
      (''p'', PatientSos 0 (Some no_sos_fields)),
      (''d1'', DriverAccept 3)]"

section \<open>The distance estimator\<close>

text \<open>
  \<^verbatim>\<open>calculateDistance\<close> computes in JavaScript numbers, which are IEEE 754 doubles. A
  number is \<open>NaN\<close>, an infinity, or a finite real; the two zeros are identified, since the
  sign of a zero never reaches the result of \<^verbatim>\<open>calculateDistance\<close>. \<open>fl\<close> rounds a real to
  the nearest double, ties to even: 53 significant bits, least exponent \<open>-1022\<close>, and
  overflow to an infinity from \<open>2 ^ 1024\<close>. The arithmetic operators round the exact result.
\<close>

datatype jsnum = NaN | PosInf | NegInf | Num real

definition pow2 :: "int \<Rightarrow> real" where
  "pow2 e = (if 0 \<le> e then 2 ^ nat e else 1 / 2 ^ nat (- e))"

text \<open>The exponent \<open>\<lfloor>log\<^sub>2 x\<rfloor>\<close> of a positive real, computed on integers.\<close>

definition ilog2 :: "real \<Rightarrow> int" where
  "ilog2 x = (if 1 \<le> x then bitlen \<lfloor>x\<rfloor> - 1 else - bitlen (\<lceil>1 / x\<rceil> - 1))"

definition round_even :: "real \<Rightarrow> int" where
  "round_even x =
     (let f = \<lfloor>x\<rfloor>; d = x - of_int f
      in if d < 1 / 2 then f else if 1 / 2 < d then f + 1 else if even f then f else f + 1)"

definition fl :: "real \<Rightarrow> jsnum" where
  "fl q =
     (if q = 0 then Num 0
      else
        (let e = max (ilog2 \<bar>q\<bar>) (- 1022);
             u = pow2 (e - 52);
             r = of_int (round_even (\<bar>q\<bar> / u)) * u
         in if 2 ^ 1024 \<le> r then (if q < 0 then NegInf else PosInf)
            else Num (if q < 0 then - r else r)))"

fun jneg :: "jsnum \<Rightarrow> jsnum" where
  "jneg NaN = NaN"
| "jneg PosInf = NegInf"
| "jneg NegInf = PosInf"
| "jneg (Num x) = Num (- x)"

fun jadd :: "jsnum \<Rightarrow> jsnum \<Rightarrow> jsnum" where
  "jadd NaN _ = NaN"
| "jadd _ NaN = NaN"
| "jadd PosInf NegInf = NaN"
| "jadd NegInf PosInf = NaN"
| "jadd PosInf _ = PosInf"
| "jadd _ PosInf = PosInf"
| "jadd NegInf _ = NegInf"
| "jadd _ NegInf = NegInf"
| "jadd (Num x) (Num y) = fl (x + y)"

definition jsub :: "jsnum \<Rightarrow> jsnum \<Rightarrow> jsnum" where
  "jsub a b = jadd a (jneg b)"

fun jmul :: "jsnum \<Rightarrow> jsnum \<Rightarrow> jsnum" where
  "jmul NaN _ = NaN"
| "jmul _ NaN = NaN"
| "jmul PosInf PosInf = PosInf"
| "jmul PosInf NegInf = NegInf"
| "jmul NegInf PosInf = NegInf"
| "jmul NegInf NegInf = PosInf"
| "jmul PosInf (Num y) = (if y = 0 then NaN else if 0 < y then PosInf else NegInf)"
| "jmul NegInf (Num y) = (if y = 0 then NaN else if 0 < y then NegInf else PosInf)"
| "jmul (Num x) PosInf = (if x = 0 then NaN else if 0 < x then PosInf else NegInf)"
| "jmul (Num x) NegInf = (if x = 0 then NaN else if 0 < x then NegInf else PosInf)"
| "jmul (Num x) (Num y) = fl (x * y)"

text \<open>Division; a zero divisor is taken as \<open>+0\<close> (the source divides by \<open>2\<close> and \<open>180\<close> only).\<close>

fun jdiv :: "jsnum \<Rightarrow> jsnum \<Rightarrow> jsnum" where
  "jdiv NaN _ = NaN"
| "jdiv _ NaN = NaN"
| "jdiv PosInf PosInf = NaN"
| "jdiv PosInf NegInf = NaN"
| "jdiv NegInf PosInf = NaN"
| "jdiv NegInf NegInf = NaN"
| "jdiv PosInf (Num y) = (if 0 \<le> y then PosInf else NegInf)"
| "jdiv NegInf (Num y) = (if 0 \<le> y then NegInf else PosInf)"
| "jdiv (Num x) PosInf = Num 0"
| "jdiv (Num x) NegInf = Num 0"
| "jdiv (Num x) (Num y) =
     (if y = 0 then (if x = 0 then NaN else if 0 < x then PosInf else NegInf) else fl (x / y))"

text \<open>
  \<^verbatim>\<open>Math.sin\<close>, \<^verbatim>\<open>Math.cos\<close>, \<^verbatim>\<open>Math.sqrt\<close> and \<^verbatim>\<open>Math.atan2\<close> return
  implementation-approximated values: what the engine returns at finite non-zero arguments
  is a parameter, as are \<^verbatim>\<open>Math.atan2\<close> with an infinite argument where ECMAScript asks for
  an approximation of a multiple of \<open>\<pi>/4\<close>, and the string of a number from \<open>10\<^sup>2\<^sup>1\<close>. The
  results ECMAScript fixes are written out.
\<close>

record math =
  m_sin :: "real \<Rightarrow> real"
  m_cos :: "real \<Rightarrow> real"
  m_sqrt :: "real \<Rightarrow> real"
  m_atan2 :: "real \<Rightarrow> real \<Rightarrow> real"
  m_atan2_inf :: "jsnum \<Rightarrow> jsnum \<Rightarrow> real"
  m_toString :: "real \<Rightarrow> string"

text \<open>\<^verbatim>\<open>Math.PI\<close> is the double \<^verbatim>\<open>0x1.921fb54442d18p+1\<close>.\<close>

definition Math_PI :: jsnum where
  "Math_PI = Num (884279719003555 / 2 ^ 48)"

fun Math_sin :: "math \<Rightarrow> jsnum \<Rightarrow> jsnum" where
  "Math_sin M (Num x) = (if x = 0 then Num 0 else Num (m_sin M x))"
| "Math_sin M _ = NaN"

fun Math_cos :: "math \<Rightarrow> jsnum \<Rightarrow> jsnum" where
  "Math_cos M (Num x) = (if x = 0 then Num 1 else Num (m_cos M x))"
| "Math_cos M _ = NaN"

fun Math_sqrt :: "math \<Rightarrow> jsnum \<Rightarrow> jsnum" where
  "Math_sqrt M (Num x) = (if x < 0 then NaN else if x = 0 then Num 0 else Num (m_sqrt M x))"
| "Math_sqrt M PosInf = PosInf"
| "Math_sqrt M _ = NaN"

fun Math_atan2 :: "math \<Rightarrow> jsnum \<Rightarrow> jsnum \<Rightarrow> jsnum" where
  "Math_atan2 M NaN _ = NaN"
| "Math_atan2 M _ NaN = NaN"
| "Math_atan2 M (Num y) (Num x) = (if y = 0 \<and> 0 < x then Num 0 else Num (m_atan2 M y x))"
| "Math_atan2 M (Num y) PosInf = Num 0"
| "Math_atan2 M y x = Num (m_atan2_inf M y x)"

text \<open>The decimal digits of a non-negative integer.\<close>

function digits :: "int \<Rightarrow> string" where
  "digits n =
     (if n < 10 then [''0123456789'' ! nat n]
      else digits (n div 10) @ [''0123456789'' ! nat (n mod 10)])"
  by pat_completeness auto
termination
  by (relation "measure nat") auto

text \<open>
  \<^verbatim>\<open>x.toFixed(1)\<close>: the integer \<open>n\<close> with \<open>n / 10\<close> nearest to \<open>\<bar>x\<bar>\<close>, the larger one on a
  tie, printed with one digit after the point.
\<close>

fun toFixed1 :: "math \<Rightarrow> jsnum \<Rightarrow> string" where
  "toFixed1 M NaN = ''NaN''"
| "toFixed1 M PosInf = ''Infinity''"
| "toFixed1 M NegInf = ''-Infinity''"
| "toFixed1 M (Num x) =
     (let s = (if x < 0 then ''-'' else '''');
          y = \<bar>x\<bar>
      in if 10 ^ 21 \<le> y then s @ m_toString M y
         else
           (let n = \<lfloor>y * 10 + 1 / 2\<rfloor>;
                m = digits n;
                m' = (if length m \<le> 1 then ''0'' @ m else m)
            in s @ butlast m' @ ''.'' @ [last m']))"

definition deg2rad :: "jsnum \<Rightarrow> jsnum" where
  "deg2rad deg = jmul deg (jdiv Math_PI (Num 180))"

text \<open>
  A coordinate of a location stands for the number the client sent; read as a JavaScript
  number it is the double nearest to it, \<open>fl (lat loc)\<close>.
\<close>

definition calculateDistance :: "math \<Rightarrow> location \<Rightarrow> location \<Rightarrow> string" where
  "calculateDistance M loc1 loc2 =
     (let R = Num 6371;
          dLat = deg2rad (jsub (fl (lat loc2)) (fl (lat loc1)));
          dLon = deg2rad (jsub (fl (lng loc2)) (fl (lng loc1)));
          a = jadd (jmul (Math_sin M (jdiv dLat (Num 2))) (Math_sin M (jdiv dLat (Num 2))))
                   (jmul (jmul (jmul (Math_cos M (deg2rad (fl (lat loc1))))
                                     (Math_cos M (deg2rad (fl (lat loc2)))))
                               (Math_sin M (jdiv dLon (Num 2))))
                         (Math_sin M (jdiv dLon (Num 2))));
          c = jmul (Num 2) (Math_atan2 M (Math_sqrt M a) (Math_sqrt M (jsub (Num 1) a)))
      in toFixed1 M (jmul R c) @ '' km'')"

text \<open>The string an offer's \<^verbatim>\<open>distance\<close> field holds.\<close>

fun distance_text :: "math \<Rightarrow> distance \<Rightarrow> string" where
  "distance_text M (CalculateDistance loc1 loc2) = calculateDistance M loc1 loc2"

text \<open>
  Two antipodal points, and a stand-in for the engine's \<^verbatim>\<open>Math\<close> functions. At the four
  arguments reached from these two points it returns the doubles nearest to the exact sine and
  cosine, which the fdlibm routines of V8 and those of glibc both return there:
  \<^verbatim>\<open>Math.sin(0x1.acee9f37bebd6p-3) = 0x1.a9cd9ac4258f6p-3\<close>,
  \<^verbatim>\<open>Math.cos(0x1.acee9f37bebd6p-3) = 0x1.f4cfc327a0080p-1\<close>, the same cosine at the negated
  argument, and \<^verbatim>\<open>Math.sin(0x1.921fb54442d18p+0) = 1\<close>. Elsewhere its values are arbitrary.
\<close>

definition south_west :: location where
  "south_west = \<lparr>lat = - 12, lng = 0, address = None\<rparr>"

definition north_east :: location where
  "north_east = \<lparr>lat = 12, lng = 180, address = None\<rparr>"

definition engine :: math where
  "engine =
     \<lparr>m_sin = (\<lambda>x. if \<bar>x\<bar> = 3772926801081835 / 2 ^ 54 then sgn x * (3745404053171323 / 2 ^ 54)
                    else if \<bar>x\<bar> = 884279719003555 / 2 ^ 49 then sgn x else x),
      m_cos = (\<lambda>x. if \<bar>x\<bar> = 3772926801081835 / 2 ^ 54 then 68831018284033 / 2 ^ 46 else 1),
      m_sqrt = (\<lambda>x. 1),
      m_atan2 = (\<lambda>y x. 884279719003555 / 2 ^ 49),
      m_atan2_inf = (\<lambda>y x. 884279719003555 / 2 ^ 49),
      m_toString = (\<lambda>x. ''1e+21'')\<rparr>"

section \<open>Store updates\<close>

lemma upd_status_socketId [simp]:
  "d_socketId (xs[r := (xs ! r)\<lparr>d_status := s\<rparr>] ! q) = d_socketId (xs ! q)"
  by (cases "r < length xs") (auto simp: nth_list_update list_update_beyond)

lemma upd_location_socketId [simp]:
  "d_socketId (xs[r := (xs ! r)\<lparr>d_location := l\<rparr>] ! q) = d_socketId (xs ! q)"
  by (cases "r < length xs") (auto simp: nth_list_update list_update_beyond)

lemma upd_location_status [simp]:
  "d_status (xs[r := (xs ! r)\<lparr>d_location := l\<rparr>] ! q) = d_status (xs ! q)"
  by (cases "r < length xs") (auto simp: nth_list_update list_update_beyond)

lemma upd_available_busyD:
  "d_status (xs[r := (xs ! r)\<lparr>d_status := Available\<rparr>] ! q) = Busy \<Longrightarrow> d_status (xs ! q) = Busy"
  by (cases "r < length xs"; cases "q = r") (auto simp: list_update_beyond)

section \<open>What each handler changes\<close>

lemma accept_effect:
  assumes "driver_accept sock k st = Inr (st', out)"
  shows "drivers st' = drivers st \<and> next_uuid st' = next_uuid st \<and> hospitals st' = hospitals st \<and>
         length (objects st') = length (objects st) \<and>
         ((st' = st \<and> out = []) \<or>
          (\<exists>r e. map_of (drivers st) sock = Some r \<and> map_of (emergencies st) k = Some e \<and>
                 e_status e = Searching \<and>
                 objects st' = (objects st)[r := (objects st ! r)\<lparr>d_status := Busy\<rparr>] \<and>
                 emergencies st' =
                   AList.update k (e\<lparr>e_status := Accepted, e_assignedDriver := Some r\<rparr>) (emergencies st)))"
  using assms unfolding driver_accept_def Let_def
  by (auto split: option.splits if_splits)

lemma accept_not_searching:
  assumes "\<forall>e. map_of (emergencies st) k = Some e \<longrightarrow> e_status e \<noteq> Searching"
  shows "driver_accept sock k st = Inr (st, [])"
  using assms unfolding driver_accept_def
  by (auto split: option.splits)

lemma sos_effect:
  assumes "patient_sos sock now data st = Inr (st', out)"
  shows "\<exists>d out'. data = Some d \<and>
           st' = st\<lparr>next_uuid := Suc (next_uuid st),
                     emergencies := AList.update (next_uuid st)
                       \<lparr>e_id = next_uuid st, e_patientSocketId = sock,
                        e_location = obj_or (sos_location d) unknown_location,
                        e_severity = str_or (sos_severity d) ''high'',
                        e_type = str_or (sos_type d) ''accident'',
                        e_status = Searching, e_timestamp = now, e_assignedDriver = None\<rparr>
                       (emergencies st)\<rparr> \<and>
           out = (sock, EmergencyCreated (next_uuid st) Searching) # out'"
  using assms unfolding patient_sos_def uuidv4_def Let_def
  by (auto split: option.splits sum.splits)

lemma cancel_effect:
  assumes "patient_cancel sock k st = Inr (st', out)"
  shows "(st' = st \<and> out = [] \<and>
            (\<forall>e. map_of (emergencies st) k = Some e \<longrightarrow> e_patientSocketId e \<noteq> sock)) \<or>
         (\<exists>e. map_of (emergencies st) k = Some e \<and> e_patientSocketId e = sock \<and>
              drivers st' = drivers st \<and> next_uuid st' = next_uuid st \<and> hospitals st' = hospitals st \<and>
              emergencies st' = AList.delete k (emergencies st) \<and>
              (case e_assignedDriver e of
                 None \<Rightarrow> objects st' = objects st \<and> out = []
               | Some a \<Rightarrow>
                   out = [(d_socketId (objects st ! a), EmergencyCancelled k)] \<and>
                   objects st' =
                     (case map_of (drivers st) (d_socketId (objects st ! a)) of
                        None \<Rightarrow> objects st
                      | Some r \<Rightarrow> (objects st)[r := (objects st ! r)\<lparr>d_status := Available\<rparr>])))"
  using assms unfolding patient_cancel_def Let_def
  by (auto split: option.splits if_splits simp: delete_update_same)

section \<open>The invariants hold in every reachable state\<close>

lemma ok_init: "state_ok init_state"
  by (simp add: state_ok_def inv_drivers_def inv_ledger_def inv_busy_def init_state_def)

lemma ok_driver_register:
  assumes "state_ok st" "driver_register sock data st = Inr (st', out)"
  shows "state_ok st'"
  using assms
  unfolding state_ok_def Let_def inv_drivers_def inv_ledger_def inv_busy_def driver_register_def uuidv4_def
  by (auto split: option.splits if_splits simp: update_conv' nth_append less_Suc_eq)

lemma ok_driver_update_location:
  assumes "state_ok st" "driver_update_location sock loc st = Inr (st', out)"
  shows "state_ok st'"
  using assms
  unfolding state_ok_def inv_drivers_def inv_ledger_def inv_busy_def driver_update_location_def
  by (auto split: option.splits)

lemma ok_driver_reject:
  assumes "state_ok st" "driver_reject sock k st = Inr (st', out)"
  shows "state_ok st'"
  using assms unfolding driver_reject_def
  by (auto split: option.splits sum.splits)

lemma ok_hospital_register:
  assumes "state_ok st" "hospital_register sock data st = Inr (st', out)"
  shows "state_ok st'"
  using assms
  unfolding state_ok_def Let_def inv_drivers_def inv_ledger_def inv_busy_def hospital_register_def uuidv4_def
  by (auto split: option.splits simp: less_Suc_eq)

lemma ok_hospital_update_beds:
  assumes "state_ok st" "hospital_update_beds sock data st = Inr (st', out)"
  shows "state_ok st'"
  using assms
  unfolding state_ok_def inv_drivers_def inv_ledger_def inv_busy_def hospital_update_beds_def
  by (auto split: option.splits)

lemma ok_disconnect:
  assumes "state_ok st" "disconnect sock st = Inr (st', out)"
  shows "state_ok st'"
  using assms
  unfolding state_ok_def inv_drivers_def inv_ledger_def inv_busy_def disconnect_def
  by (auto split: option.splits if_splits simp: delete_conv')

lemma ok_driver_accept:
  assumes ok: "state_ok st" and acc: "driver_accept sock k st = Inr (st', out)"
  shows "state_ok st'"
proof -
  from ok have D: "inv_drivers st" and L: "inv_ledger st" and B: "inv_busy st"
    by (simp_all add: state_ok_def)
  note eff = accept_effect [OF acc]
  from eff consider (noop) "st' = st"
    | (commit) r e where "map_of (drivers st) sock = Some r" "map_of (emergencies st) k = Some e"
        "e_status e = Searching"
        "objects st' = (objects st)[r := (objects st ! r)\<lparr>d_status := Busy\<rparr>]"
        "emergencies st' = AList.update k (e\<lparr>e_status := Accepted, e_assignedDriver := Some r\<rparr>) (emergencies st)"
    by blast
  then show ?thesis
  proof cases
    case noop
    with ok show ?thesis by simp
  next
    case commit
    from eff have dr: "drivers st' = drivers st" and nu: "next_uuid st' = next_uuid st" by simp_all
    have r_lt: "r < length (objects st)"
      using D commit(1) by (simp add: inv_drivers_def)
    have D': "inv_drivers st'"
      using D unfolding inv_drivers_def dr commit(4)
      by simp
    have L': "inv_ledger st'"
      using L r_lt commit(2,3) unfolding inv_ledger_def nu commit(4,5)
      by (auto simp: update_conv' split: if_splits)
    have B': "inv_busy st'"
      unfolding inv_busy_def
    proof (intro allI impI, elim conjE)
      fix sid q
      assume reg: "map_of (drivers st') sid = Some q" and busy: "d_status (objects st' ! q) = Busy"
      show "\<exists>k' e'. map_of (emergencies st') k' = Some e' \<and> e_status e' = Accepted \<and> e_assignedDriver e' = Some q"
      proof (cases "q = r")
        case True
        then show ?thesis unfolding commit(5) by (auto simp: update_conv')
      next
        case False
        with busy have "d_status (objects st ! q) = Busy"
          by (simp add: commit(4))
        with B reg obtain k1 e1 where k1: "map_of (emergencies st) k1 = Some e1"
            "e_status e1 = Accepted" "e_assignedDriver e1 = Some q"
          unfolding inv_busy_def dr by blast
        with commit(2,3) have "k1 \<noteq> k" by auto
        with k1 show ?thesis unfolding commit(5) by (auto simp: update_conv')
      qed
    qed
    from D' L' B' show ?thesis by (simp add: state_ok_def)
  qed
qed

lemma ok_patient_sos:
  assumes ok: "state_ok st" and sos: "patient_sos sock now data st = Inr (st', out)"
  shows "state_ok st'"
proof -
  from ok have D: "inv_drivers st" and L: "inv_ledger st" and B: "inv_busy st"
    by (simp_all add: state_ok_def)
  from sos_effect [OF sos] obtain e where
    st': "st' = st\<lparr>next_uuid := Suc (next_uuid st),
                     emergencies := AList.update (next_uuid st) e (emergencies st)\<rparr>"
    and e: "e_id e = next_uuid st" "e_status e = Searching" "e_assignedDriver e = None"
    by fastforce
  have fresh: "map_of (emergencies st) (next_uuid st) = None"
  proof (cases "map_of (emergencies st) (next_uuid st)")
    case (Some x)
    with L have "next_uuid st < next_uuid st" unfolding inv_ledger_def by blast
    then show ?thesis by simp
  qed simp
  have D': "inv_drivers st'"
    using D unfolding inv_drivers_def st' by simp
  have L': "inv_ledger st'"
    using L e unfolding inv_ledger_def st'
    by (auto simp: update_conv' less_Suc_eq split: if_splits)
  have B': "inv_busy st'"
    unfolding inv_busy_def
  proof (intro allI impI, elim conjE)
    fix sid q
    assume "map_of (drivers st') sid = Some q" and "d_status (objects st' ! q) = Busy"
    then have "map_of (drivers st) sid = Some q" and "d_status (objects st ! q) = Busy"
      by (simp_all add: st')
    with B obtain k1 e1 where k1: "map_of (emergencies st) k1 = Some e1"
        "e_status e1 = Accepted" "e_assignedDriver e1 = Some q"
      unfolding inv_busy_def by blast
    with fresh have "k1 \<noteq> next_uuid st" by auto
    with k1 show "\<exists>k' e'. map_of (emergencies st') k' = Some e' \<and> e_status e' = Accepted \<and> e_assignedDriver e' = Some q"
      unfolding st' by (auto simp: update_conv')
  qed
  from D' L' B' show ?thesis by (simp add: state_ok_def)
qed

lemma ok_patient_cancel:
  assumes ok: "state_ok st" and can: "patient_cancel sock k st = Inr (st', out)"
  shows "state_ok st'"
proof -
  from ok have D: "inv_drivers st" and L: "inv_ledger st" and B: "inv_busy st"
    by (simp_all add: state_ok_def)
  from cancel_effect [OF can] consider (noop) "st' = st"
    | (cancel) e where "map_of (emergencies st) k = Some e"
        "drivers st' = drivers st" "next_uuid st' = next_uuid st"
        "emergencies st' = AList.delete k (emergencies st)"
        "case e_assignedDriver e of
           None \<Rightarrow> objects st' = objects st
         | Some a \<Rightarrow> objects st' =
             (case map_of (drivers st) (d_socketId (objects st ! a)) of
                None \<Rightarrow> objects st
              | Some r \<Rightarrow> (objects st)[r := (objects st ! r)\<lparr>d_status := Available\<rparr>])"
    by (auto split: option.splits)
  then show ?thesis
  proof cases
    case noop
    with ok show ?thesis by simp
  next
    case cancel
    have len: "length (objects st') = length (objects st)"
      using cancel(5) by (auto split: option.splits)
    have sid_same: "d_socketId (objects st' ! q) = d_socketId (objects st ! q)" for q
      using cancel(5) by (auto split: option.splits)
    have D': "inv_drivers st'"
      using D unfolding inv_drivers_def cancel(2) len sid_same by simp
    have L': "inv_ledger st'"
      using L unfolding inv_ledger_def cancel(3,4) len
      by (auto simp: delete_conv' split: if_splits)
    have B': "inv_busy st'"
      unfolding inv_busy_def
    proof (intro allI impI, elim conjE)
      fix sid q
      assume reg: "map_of (drivers st') sid = Some q" and busy: "d_status (objects st' ! q) = Busy"
      from reg have reg0: "map_of (drivers st) sid = Some q" by (simp add: cancel(2))
      with D have q: "q < length (objects st)" "d_socketId (objects st ! q) = sid"
        by (simp_all add: inv_drivers_def)
      have busy0: "d_status (objects st ! q) = Busy"
        using busy cancel(5)
        by (auto split: option.splits dest: upd_available_busyD)
      with B reg0 obtain k1 e1 where k1: "map_of (emergencies st) k1 = Some e1"
          "e_status e1 = Accepted" "e_assignedDriver e1 = Some q"
        unfolding inv_busy_def by blast
      have "k1 \<noteq> k"
      proof
        assume "k1 = k"
        with k1 cancel(1) have a: "e_assignedDriver e = Some q" by simp
        with cancel(5) q(2) reg0 have "objects st' = (objects st)[q := (objects st ! q)\<lparr>d_status := Available\<rparr>]"
          by simp
        with q(1) busy show False by simp
      qed
      with k1 show "\<exists>k' e'. map_of (emergencies st') k' = Some e' \<and> e_status e' = Accepted \<and> e_assignedDriver e' = Some q"
        unfolding cancel(4) by (auto simp: delete_conv')
    qed
    from D' L' B' show ?thesis by (simp add: state_ok_def)
  qed
qed

lemma ok_handle:
  assumes "state_ok st" "handle sock ev st = Inr (st', out)"
  shows "state_ok st'"
  using assms
  by (cases ev)
     (auto intro: ok_driver_register ok_driver_update_location ok_driver_accept ok_driver_reject
        ok_patient_sos ok_patient_cancel ok_hospital_register ok_hospital_update_beds ok_disconnect)

lemma reachable_ok: "reachable st \<Longrightarrow> state_ok st"
  by (induction rule: reachable.induct) (auto intro: ok_init ok_handle)

lemma run_reachable:
  assumes "reachable st" "run evs st = Inr (st', out)"
  shows "reachable st'"
  using assms
proof (induction evs arbitrary: st out)
  case Nil
  then show ?case by simp
next
  case (Cons a evs)
  obtain sock ev where a: "a = (sock, ev)" by (cases a)
  from Cons.prems(2) obtain st1 out1 st2 out2 where
    h: "handle sock ev st = Inr (st1, out1)" and r: "run evs st1 = Inr (st2, out2)" and "st' = st2"
    unfolding a by (auto split: sum.splits)
  from Cons.prems(1) h have "reachable st1" by (rule reachable_step)
  with r Cons.IH \<open>st' = st2\<close> show ?case by blast
qed

lemma reachable_state_after: "reachable (state_after evs)"
proof (cases "run evs init_state")
  case (Inl e)
  then show ?thesis by (simp add: state_after_def reachable_init)
next
  case (Inr p)
  then obtain st out where "run evs init_state = Inr (st, out)" by (cases p) auto
  with run_reachable [OF reachable_init this] show ?thesis by (simp add: state_after_def)
qed

section \<open>Once accepted, a request never goes back to searching\<close>

lemma settled_handle:
  assumes lt: "k < next_uuid st"
    and acc: "\<forall>e. map_of (emergencies st) k = Some e \<longrightarrow> e_status e = Accepted \<and> e_assignedDriver e = Some r"
    and h: "handle sock ev st = Inr (st', out)"
  shows "k < next_uuid st' \<and>
         (\<forall>e. map_of (emergencies st') k = Some e \<longrightarrow> e_status e = Accepted \<and> e_assignedDriver e = Some r)"
proof (cases ev)
  case (DriverRegister data)
  with h lt acc show ?thesis
    by (auto simp: driver_register_def uuidv4_def Let_def split: option.splits)
next
  case (DriverUpdateLocation loc)
  with h lt acc show ?thesis
    by (auto simp: driver_update_location_def split: option.splits)
next
  case (DriverAccept k')
  with h have a: "driver_accept sock k' st = Inr (st', out)" by simp
  from accept_effect [OF a] lt acc show ?thesis
    by (cases "k' = k") (auto simp: update_conv')
next
  case (DriverReject k')
  with h lt acc show ?thesis
    by (auto simp: driver_reject_def split: option.splits sum.splits)
next
  case (PatientSos now data)
  with h have a: "patient_sos sock now data st = Inr (st', out)" by simp
  from sos_effect [OF a] lt acc show ?thesis
    by (auto simp: update_conv')
next
  case (PatientCancel k')
  with h have a: "patient_cancel sock k' st = Inr (st', out)" by simp
  from cancel_effect [OF a] lt acc show ?thesis
    by (cases "k' = k") (auto simp: delete_conv')
next
  case (HospitalRegister data)
  with h lt acc show ?thesis
    by (auto simp: hospital_register_def uuidv4_def Let_def split: option.splits)
next
  case (HospitalUpdateBeds data)
  with h lt acc show ?thesis
    by (auto simp: hospital_update_beds_def split: option.splits)
next
  case Disconnect
  with h lt acc show ?thesis
    by (auto simp: disconnect_def)
qed

lemma settled_run:
  assumes "k < next_uuid st"
    and "\<forall>e. map_of (emergencies st) k = Some e \<longrightarrow> e_status e = Accepted \<and> e_assignedDriver e = Some r"
    and "run evs st = Inr (st', out)"
  shows "k < next_uuid st' \<and>
         (\<forall>e. map_of (emergencies st') k = Some e \<longrightarrow> e_status e = Accepted \<and> e_assignedDriver e = Some r)"
  using assms
proof (induction evs arbitrary: st out)
  case Nil
  then show ?case by simp
next
  case (Cons a evs)
  obtain sock ev where a: "a = (sock, ev)" by (cases a)
  from Cons.prems(3) obtain st1 out1 st2 out2 where
    h: "handle sock ev st = Inr (st1, out1)" and r: "run evs st1 = Inr (st2, out2)" and "st' = st2"
    unfolding a by (auto split: sum.splits)
  from settled_handle [OF Cons.prems(1,2) h] Cons.IH [of st1 out2] r \<open>st' = st2\<close>
  show ?case by blast
qed

section \<open>Committing accepts, total cancels and the broadcast loop\<close>

lemma accept_commit:
  assumes "map_of (drivers st) sock = Some r" "map_of (emergencies st) k = Some e" "e_status e = Searching"
  shows "driver_accept sock k st =
           Inr (st\<lparr>objects := (objects st)[r := (objects st ! r)\<lparr>d_status := Busy\<rparr>],
                   emergencies := AList.update k (e\<lparr>e_status := Accepted, e_assignedDriver := Some r\<rparr>)
                                    (emergencies st)\<rparr>,
                (e_patientSocketId e,
                   EmergencyDriverAssigned k (d_name (objects st ! r)) (d_vehicle (objects st ! r)) ''5 mins'') #
                (sock, DriverAssignmentConfirmed k (e\<lparr>e_status := Accepted, e_assignedDriver := Some r\<rparr>)
                         ((objects st ! r)\<lparr>d_status := Busy\<rparr>)) #
                map (\<lambda>(h, _). (h, HospitalIncomingPatient k (e_severity e) ''8 mins'' (d_vehicle (objects st ! r))))
                    (hospitals st))"
  using assms by (simp add: driver_accept_def Let_def)

lemma notify_drivers_defined:
  assumes "\<forall>(sid, r) \<in> set ds. d_status (objs ! r) = Available \<longrightarrow> d_location (objs ! r) \<noteq> None"
  shows "notify_drivers e objs ds =
           Inr (map (\<lambda>(sid, r).
                       (sid, EmergencyNewRequest (e_id e) (e_location e) (e_severity e) (e_type e)
                               (CalculateDistance (the (d_location (objs ! r))) (e_location e))))
                    (filter (\<lambda>(sid, r). d_status (objs ! r) = Available) ds),
                length (filter (\<lambda>(sid, r). d_status (objs ! r) = Available) ds))"
  using assms by (induction ds) auto

lemma notify_drivers_Inr:
  assumes "notify_drivers e objs ds = Inr p"
  shows "\<forall>(sid, r) \<in> set ds. d_status (objs ! r) = Available \<longrightarrow> d_location (objs ! r) \<noteq> None"
  using assms
proof (induction ds arbitrary: p)
  case Nil
  then show ?case by simp
next
  case (Cons a ds)
  obtain sid r where a: "a = (sid, r)" by (cases a)
  show ?case
  proof (cases "d_status (objs ! r) = Available")
    case True
    with Cons.prems a obtain l p' where "d_location (objs ! r) = Some l" "notify_drivers e objs ds = Inr p'"
      by (auto split: option.splits sum.splits)
    with Cons.IH a show ?thesis by auto
  next
    case False
    with Cons.prems a have "notify_drivers e objs ds = Inr p" by simp
    with Cons.IH a False show ?thesis by auto
  qed
qed

lemma notify_drivers_none_available:
  assumes "\<forall>(sid, r) \<in> set ds. d_status (objs ! r) \<noteq> Available"
  shows "notify_drivers e objs ds = Inr ([], 0)"
  using assms by (induction ds) auto

lemma broadcast_result:
  assumes "broadcastToAvailableDrivers e st = Inr out"
  shows "(\<forall>sid r. (sid, r) \<in> set (drivers st) \<and> d_status (objects st ! r) = Available \<longrightarrow>
            (\<exists>l. d_location (objects st ! r) = Some l \<and>
                 (sid, EmergencyNewRequest (e_id e) (e_location e) (e_severity e) (e_type e)
                         (CalculateDistance l (e_location e))) \<in> set out)) \<and>
         (\<forall>sid k l s t d. (sid, EmergencyNewRequest k l s t d) \<in> set out \<longrightarrow>
            (\<exists>r. (sid, r) \<in> set (drivers st) \<and> d_status (objects st ! r) = Available)) \<and>
         ((\<forall>sid r. (sid, r) \<in> set (drivers st) \<longrightarrow> d_status (objects st ! r) \<noteq> Available) \<longrightarrow>
            out = [(e_patientSocketId e, EmergencyNoDrivers (e_id e))])"
proof -
  from assms obtain p where p: "notify_drivers e (objects st) (drivers st) = Inr p"
    unfolding broadcastToAvailableDrivers_def by (auto split: sum.splits)
  note locs = notify_drivers_Inr [OF p]
  let ?avail = "filter (\<lambda>(sid, r). d_status (objects st ! r) = Available) (drivers st)"
  let ?offers = "map (\<lambda>(sid, r).
                       (sid, EmergencyNewRequest (e_id e) (e_location e) (e_severity e) (e_type e)
                               (CalculateDistance (the (d_location (objects st ! r))) (e_location e)))) ?avail"
  from assms notify_drivers_defined [OF locs, of e]
  have out: "out = ?offers @ (if length ?avail = 0 then [(e_patientSocketId e, EmergencyNoDrivers (e_id e))] else [])"
    unfolding broadcastToAvailableDrivers_def by simp
  show ?thesis
  proof (intro conjI allI impI)
    fix sid r
    assume a: "(sid, r) \<in> set (drivers st) \<and> d_status (objects st ! r) = Available"
    with locs obtain l where l: "d_location (objects st ! r) = Some l" by fastforce
    from a have "(sid, r) \<in> set ?avail" by simp
    then have "(sid, EmergencyNewRequest (e_id e) (e_location e) (e_severity e) (e_type e)
                         (CalculateDistance (the (d_location (objects st ! r))) (e_location e))) \<in> set ?offers"
      by (force simp: image_iff)
    with l show "\<exists>l. d_location (objects st ! r) = Some l \<and>
                 (sid, EmergencyNewRequest (e_id e) (e_location e) (e_severity e) (e_type e)
                         (CalculateDistance l (e_location e))) \<in> set out"
      unfolding out by simp
  next
    fix sid k l s t d
    assume "(sid, EmergencyNewRequest k l s t d) \<in> set out"
    then have "(sid, EmergencyNewRequest k l s t d) \<in> set ?offers"
      unfolding out by (auto split: if_splits)
    then show "\<exists>r. (sid, r) \<in> set (drivers st) \<and> d_status (objects st ! r) = Available"
      by auto
  next
    assume "\<forall>sid r. (sid, r) \<in> set (drivers st) \<longrightarrow> d_status (objects st ! r) \<noteq> Available"
    then have "?avail = []" by (auto simp: filter_empty_conv)
    then show "out = [(e_patientSocketId e, EmergencyNoDrivers (e_id e))]"
      unfolding out by simp
  qed
qed

lemma broadcast_defined:
  assumes "\<forall>sid r. (sid, r) \<in> set (drivers st) \<and> d_status (objects st ! r) = Available \<longrightarrow>
             d_location (objects st ! r) \<noteq> None"
  shows "\<exists>out. broadcastToAvailableDrivers e st = Inr out"
proof -
  from assms have "\<forall>(sid, r) \<in> set (drivers st).
      d_status (objects st ! r) = Available \<longrightarrow> d_location (objects st ! r) \<noteq> None"
    by blast
  from notify_drivers_defined [OF this, of e] show ?thesis
    unfolding broadcastToAvailableDrivers_def by simp
qed

lemma cancel_total: "\<exists>p. patient_cancel sock k st = Inr p"
  by (auto simp: patient_cancel_def Let_def split: option.splits prod.splits)

section \<open>Double arithmetic is symmetric under negation\<close>

lemma fl_neg: "fl (- q) = jneg (fl q)"
  by (simp add: fl_def Let_def)

lemma jneg_jneg [simp]: "jneg (jneg a) = a"
  by (cases a) simp_all

lemma jadd_commute: "jadd a b = jadd b a"
  by (cases a; cases b) (simp_all add: add.commute)

lemma jneg_jadd: "jneg (jadd a b) = jadd (jneg a) (jneg b)"
proof (cases a; cases b)
  fix x y
  assume "a = Num x" "b = Num y"
  then show ?thesis using fl_neg [of "x + y"] by simp
qed simp_all

lemma jsub_swap: "jsub b a = jneg (jsub a b)"
  by (simp add: jsub_def jneg_jadd jadd_commute)

lemma jmul_commute: "jmul a b = jmul b a"
  by (cases a; cases b) (simp_all add: mult.commute)

lemma jmul_jneg_left: "jmul (jneg a) b = jneg (jmul a b)"
proof (cases a; cases b)
  fix x y
  assume "a = Num x" "b = Num y"
  then show ?thesis using fl_neg [of "x * y"] by simp
qed auto

lemma jmul_jneg_right: "jmul a (jneg b) = jneg (jmul a b)"
  using jmul_jneg_left [of b a] by (simp add: jmul_commute)

lemma jmul_jneg_jneg: "jmul (jneg a) (jneg b) = jmul a b"
  by (simp add: jmul_jneg_left jmul_jneg_right)

lemma jdiv_jneg_left: "jdiv (jneg a) (Num 2) = jneg (jdiv a (Num 2))"
proof (cases a)
  case (Num x)
  then show ?thesis using fl_neg [of "x / 2"] by simp
qed simp_all

lemma deg2rad_jneg: "deg2rad (jneg d) = jneg (deg2rad d)"
  by (simp add: deg2rad_def jmul_jneg_left)

lemma Math_sin_jneg:
  assumes "\<forall>x. m_sin M (- x) = - m_sin M x"
  shows "Math_sin M (jneg a) = jneg (Math_sin M a)"
  using assms by (cases a) simp_all

text \<open>
  Symmetry. When the engine's sine is odd, swapping the two points negates both differences,
  and every later operation either commutes or squares the sign away.
\<close>

lemma calculateDistance_symmetric:
  assumes odd: "\<forall>x. m_sin M (- x) = - m_sin M x"
  shows "calculateDistance M loc1 loc2 = calculateDistance M loc2 loc1"
proof -
  have half: "Math_sin M (jdiv (deg2rad (jsub b a)) (Num 2)) =
              jneg (Math_sin M (jdiv (deg2rad (jsub a b)) (Num 2)))" for a b
    by (simp add: jsub_swap [of b a] deg2rad_jneg jdiv_jneg_left Math_sin_jneg [OF odd])
  show ?thesis
    unfolding calculateDistance_def Let_def
    by (simp add: half [of "fl (lat loc2)" "fl (lat loc1)"] half [of "fl (lng loc2)" "fl (lng loc1)"]
          jmul_jneg_jneg jmul_jneg_left jmul_jneg_right
          jmul_commute [of "Math_cos M (deg2rad (fl (lat loc2)))"])
qed

section \<open>Rounding to a double\<close>

lemma pow2_pos [simp]: "0 < pow2 e"
  by (simp add: pow2_def)

lemma pow2_powr: "pow2 e = 2 powr real_of_int e"
  by (simp add: pow2_def powr_real_of_int inverse_eq_divide)

lemma pow2_less_iff: "pow2 a < pow2 b \<longleftrightarrow> a < b"
  unfolding pow2_powr by simp

lemma pow2_le_iff: "pow2 a \<le> pow2 b \<longleftrightarrow> a \<le> b"
  unfolding pow2_powr by simp

lemma pow2_nonneg: "0 \<le> e \<Longrightarrow> pow2 e = 2 ^ nat e"
  by (simp add: pow2_def)

lemma pow2_nonpos: "e \<le> 0 \<Longrightarrow> pow2 e = 1 / 2 ^ nat (- e)"
  by (cases "e = 0") (simp_all add: pow2_def)

lemma ilog2_bounds_ge1:
  assumes "1 \<le> x"
  shows "pow2 (ilog2 x) \<le> x \<and> x < pow2 (ilog2 x + 1)"
proof -
  define n where "n = \<lfloor>x\<rfloor>"
  from assms have n: "1 \<le> n" by (simp add: n_def le_floor_iff)
  then have "0 < n" by simp
  from bitlen_bounds [OF this] have b: "2 ^ nat (bitlen n - 1) \<le> n" "n < 2 ^ nat (bitlen n)"
    by simp_all
  from \<open>0 < n\<close> have b1: "1 \<le> bitlen n" by (simp add: bitlen_alt_def)
  have e: "ilog2 x = bitlen n - 1" using assms by (simp add: ilog2_def n_def)
  have p1: "pow2 (ilog2 x) = 2 ^ nat (bitlen n - 1)" unfolding e using b1 by (intro pow2_nonneg) simp
  have p2: "pow2 (ilog2 x + 1) = 2 ^ nat (bitlen n)" unfolding e using b1 by (simp add: pow2_nonneg)
  from b(1) have "real_of_int (2 ^ nat (bitlen n - 1)) \<le> real_of_int n" by (rule of_int_le_iff [THEN iffD2])
  then have "2 ^ nat (bitlen n - 1) \<le> real_of_int n" by simp
  also have "real_of_int n \<le> x" by (simp add: n_def)
  finally have lo: "pow2 (ilog2 x) \<le> x" unfolding p1 .
  from b(2) have "n + 1 \<le> 2 ^ nat (bitlen n)" by simp
  then have "real_of_int (n + 1) \<le> real_of_int (2 ^ nat (bitlen n))" by (rule of_int_le_iff [THEN iffD2])
  then have "real_of_int n + 1 \<le> 2 ^ nat (bitlen n)" by simp
  moreover have "x < real_of_int n + 1" by (simp add: n_def)
  ultimately have hi: "x < pow2 (ilog2 x + 1)" unfolding p2 by linarith
  from lo hi show ?thesis by simp
qed

lemma ilog2_bounds_lt1:
  assumes "0 < x" "x < 1"
  shows "pow2 (ilog2 x) \<le> x \<and> x < pow2 (ilog2 x + 1)"
proof -
  define y where "y = 1 / x"
  define m where "m = \<lceil>y\<rceil> - 1"
  from assms have y: "1 < y" by (simp add: y_def)
  have xy: "x = 1 / y" by (simp add: y_def)
  from y have "2 \<le> \<lceil>y\<rceil>" by (simp add: le_ceiling_iff)
  then have "0 < m" by (simp add: m_def)
  from bitlen_bounds [OF this] have b: "2 ^ nat (bitlen m - 1) \<le> m" "m < 2 ^ nat (bitlen m)"
    by simp_all
  from \<open>0 < m\<close> have b1: "1 \<le> bitlen m" by (simp add: bitlen_alt_def)
  have e: "ilog2 x = - bitlen m" using assms by (simp add: ilog2_def m_def y_def)
  have p1: "pow2 (ilog2 x) = 1 / 2 ^ nat (bitlen m)"
    unfolding e using b1 by (simp add: pow2_nonpos)
  have p2: "pow2 (ilog2 x + 1) = 1 / 2 ^ nat (bitlen m - 1)"
  proof -
    have "- bitlen m + 1 \<le> 0" using b1 by simp
    then have "pow2 (- bitlen m + 1) = 1 / 2 ^ nat (- (- bitlen m + 1))" by (rule pow2_nonpos)
    moreover have "- (- bitlen m + 1) = bitlen m - 1" by simp
    ultimately show ?thesis unfolding e by simp
  qed
  have my: "real_of_int m < y" "y \<le> real_of_int m + 1"
    using ceiling_correct [of y] by (simp_all add: m_def)
  from b(2) have "m + 1 \<le> 2 ^ nat (bitlen m)" by simp
  then have "real_of_int (m + 1) \<le> real_of_int (2 ^ nat (bitlen m))" by (rule of_int_le_iff [THEN iffD2])
  then have "real_of_int m + 1 \<le> 2 ^ nat (bitlen m)" by simp
  with my(2) have yu: "y \<le> 2 ^ nat (bitlen m)" by linarith
  from b(1) have "real_of_int (2 ^ nat (bitlen m - 1)) \<le> real_of_int m" by (rule of_int_le_iff [THEN iffD2])
  then have "2 ^ nat (bitlen m - 1) \<le> real_of_int m" by simp
  with my(1) have yl: "2 ^ nat (bitlen m - 1) < y" by linarith
  have ypos: "0 < y" using y by linarith
  have yx: "1 / y = x" by (simp add: y_def)
  have "1 / 2 ^ nat (bitlen m) \<le> 1 / y"
    using yu ypos by (intro divide_left_mono) simp_all
  then have lo: "pow2 (ilog2 x) \<le> x" unfolding p1 yx .
  have "1 / y < 1 / 2 ^ nat (bitlen m - 1)"
    using yl ypos by (intro divide_strict_left_mono) simp_all
  then have hi: "x < pow2 (ilog2 x + 1)" unfolding p2 yx .
  from lo hi show ?thesis by simp
qed

lemma ilog2_bounds:
  assumes "0 < x"
  shows "pow2 (ilog2 x) \<le> x \<and> x < pow2 (ilog2 x + 1)"
  using assms ilog2_bounds_ge1 [of x] ilog2_bounds_lt1 [of x] by (cases "1 \<le> x") simp_all

lemma ilog2_unique:
  assumes "pow2 e \<le> x" "x < pow2 (e + 1)"
  shows "ilog2 x = e"
proof -
  have "0 < x" using assms(1) pow2_pos [of e] by linarith
  from ilog2_bounds [OF this] have i: "pow2 (ilog2 x) \<le> x" "x < pow2 (ilog2 x + 1)" by simp_all
  from assms(1) i(2) have "pow2 e < pow2 (ilog2 x + 1)" by linarith
  then have 1: "e < ilog2 x + 1" by (simp add: pow2_less_iff)
  from i(1) assms(2) have "pow2 (ilog2 x) < pow2 (e + 1)" by linarith
  then have 2: "ilog2 x < e + 1" by (simp add: pow2_less_iff)
  from 1 2 show ?thesis by simp
qed

lemma round_even_nearest:
  assumes "\<bar>z - of_int n\<bar> < 1 / 2 \<or> \<bar>z - of_int n\<bar> = 1 / 2 \<and> even n"
  shows "round_even z = n"
proof (cases "of_int n \<le> z")
  case True
  with assms have d: "z - of_int n < 1 / 2 \<or> z - of_int n = 1 / 2 \<and> even n" by auto
  then have "\<lfloor>z\<rfloor> = n" using True by (intro floor_unique) auto
  with d show ?thesis by (auto simp: round_even_def Let_def)
next
  case False
  with assms have d: "of_int n - z < 1 / 2 \<or> of_int n - z = 1 / 2 \<and> even n" by auto
  then have f: "\<lfloor>z\<rfloor> = n - 1" using False by (intro floor_unique) auto
  from d have "1 / 2 < z - of_int (n - 1) \<or> z - of_int (n - 1) = 1 / 2 \<and> odd (n - 1)" by auto
  with f show ?thesis by (auto simp: round_even_def Let_def)
qed

text \<open>
  Evaluating \<open>fl\<close>: with \<open>2\<^sup>e \<le> \<bar>q\<bar> < 2\<^sup>e\<^sup>+\<^sup>1\<close>, the multiple of \<open>2\<^sup>e\<^sup>-\<^sup>5\<^sup>2\<close> within half a unit
  of \<open>\<bar>q\<bar>\<close> is the result.
\<close>

lemma fl_eqI:
  assumes "pow2 e \<le> \<bar>q\<bar>" "\<bar>q\<bar> < pow2 (e + 1)" "- 1022 \<le> e"
    and "\<bar>\<bar>q\<bar> / pow2 (e - 52) - of_int n\<bar> < 1 / 2 \<or>
         \<bar>\<bar>q\<bar> / pow2 (e - 52) - of_int n\<bar> = 1 / 2 \<and> even n"
    and "of_int n * pow2 (e - 52) < 2 ^ 1024"
  shows "fl q = Num ((if q < 0 then - 1 else 1) * (of_int n * pow2 (e - 52)))"
proof -
  have "0 < \<bar>q\<bar>" using assms(1) pow2_pos [of e] by linarith
  then have q: "q \<noteq> 0" by simp
  have "ilog2 \<bar>q\<bar> = e" using assms(1,2) by (rule ilog2_unique)
  with assms(3) have m: "max (ilog2 \<bar>q\<bar>) (- 1022) = e" by simp
  have r: "round_even (\<bar>q\<bar> / pow2 (e - 52)) = n" using assms(4) by (rule round_even_nearest)
  show ?thesis unfolding fl_def Let_def m r using q assms(5) by simp
qed

section \<open>The estimator at two antipodal points\<close>

lemma fl_12: "fl 12 = Num 12"
  using fl_eqI [where q = 12 and e = 3 and n = 6755399441055744]
  by (simp add: pow2_def)

lemma fl_180: "fl 180 = Num 180"
  using fl_eqI [where q = 180 and e = 7 and n = 6333186975989760]
  by (simp add: pow2_def)

lemma sub_lat: "jsub (Num 12) (Num (- 12)) = Num 24"
  using fl_eqI [where q = 24 and e = 4 and n = 6755399441055744]
  by (simp add: pow2_def jsub_def)

lemma sub_lng: "jsub (Num 180) (Num 0) = Num 180"
  using fl_180 by (simp add: jsub_def)

lemma pi_180: "jdiv Math_PI (Num 180) = Num (5030569068109113 / 2 ^ 58)"
  using fl_eqI [where q = "884279719003555 / 2 ^ 48 / 180" and e = "- 6" and n = 5030569068109113]
  by (simp add: pow2_def Math_PI_def)

lemma rad_24: "jmul (Num 24) (Num (5030569068109113 / 2 ^ 58)) = Num (3772926801081835 / 2 ^ 53)"
  using fl_eqI [where q = "24 * (5030569068109113 / 2 ^ 58)" and e = "- 2" and n = 7545853602163670]
  by (simp add: pow2_def)

lemma rad_180: "jmul (Num 180) (Num (5030569068109113 / 2 ^ 58)) = Num (884279719003555 / 2 ^ 48)"
  using fl_eqI [where q = "180 * (5030569068109113 / 2 ^ 58)" and e = 1 and n = 7074237752028440]
  by (simp add: pow2_def)

lemma rad_12: "jmul (Num 12) (Num (5030569068109113 / 2 ^ 58)) = Num (3772926801081835 / 2 ^ 54)"
  using fl_eqI [where q = "12 * (5030569068109113 / 2 ^ 58)" and e = "- 3" and n = 7545853602163670]
  by (simp add: pow2_def)

lemma rad_minus_12:
  "jmul (Num (- 12)) (Num (5030569068109113 / 2 ^ 58)) = Num (- (3772926801081835 / 2 ^ 54))"
  using jmul_jneg_left [of "Num 12" "Num (5030569068109113 / 2 ^ 58)"] rad_12
  by simp

lemma half_lat: "jdiv (Num (3772926801081835 / 2 ^ 53)) (Num 2) = Num (3772926801081835 / 2 ^ 54)"
  using fl_eqI [where q = "3772926801081835 / 2 ^ 53 / 2" and e = "- 3" and n = 7545853602163670]
  by (simp add: pow2_def)

lemma half_lng: "jdiv (Num (884279719003555 / 2 ^ 48)) (Num 2) = Num (884279719003555 / 2 ^ 49)"
  using fl_eqI [where q = "884279719003555 / 2 ^ 48 / 2" and e = 0 and n = 7074237752028440]
  by (simp add: pow2_def)

lemma sin_sq:
  "jmul (Num (3745404053171323 / 2 ^ 54)) (Num (3745404053171323 / 2 ^ 54)) =
     Num (3114853157962155 / 2 ^ 56)"
  using fl_eqI [where q = "3745404053171323 / 2 ^ 54 * (3745404053171323 / 2 ^ 54)" and e = "- 5"
      and n = 6229706315924310]
  by (simp add: pow2_def)

lemma cos_sq:
  "jmul (Num (68831018284033 / 2 ^ 46)) (Num (68831018284033 / 2 ^ 46)) =
     Num (2154460652498931 / 2 ^ 51)"
  using fl_eqI [where q = "68831018284033 / 2 ^ 46 * (68831018284033 / 2 ^ 46)" and e = "- 1"
      and n = 8617842609995724]
  by (simp add: pow2_def)

lemma cos_sq_one: "jmul (Num (2154460652498931 / 2 ^ 51)) (Num 1) = Num (2154460652498931 / 2 ^ 51)"
  using fl_eqI [where q = "2154460652498931 / 2 ^ 51" and e = "- 1" and n = 8617842609995724]
  by (simp add: pow2_def)

lemma sum_a:
  "jadd (Num (3114853157962155 / 2 ^ 56)) (Num (2154460652498931 / 2 ^ 51)) =
     Num (4503599627370497 / 2 ^ 52)"
  using fl_eqI [where q = "3114853157962155 / 2 ^ 56 + 2154460652498931 / 2 ^ 51" and e = 0
      and n = 4503599627370497]
  by (simp add: pow2_def)

lemma one_minus_a: "jsub (Num 1) (Num (4503599627370497 / 2 ^ 52)) = Num (- (1 / 2 ^ 52))"
  using fl_eqI [where q = "1 - 4503599627370497 / 2 ^ 52" and e = "- 52" and n = 4503599627370496]
  by (simp add: pow2_def jsub_def)

section \<open>The estimator at one point\<close>

lemma round_even_bounds:
  assumes "0 \<le> z"
  shows "0 \<le> round_even z \<and> of_int (round_even z) \<le> z + 1"
proof -
  have f: "0 \<le> \<lfloor>z\<rfloor>" using assms by simp
  have "real_of_int \<lfloor>z\<rfloor> \<le> z" by simp
  then have "real_of_int (\<lfloor>z\<rfloor> + 1) \<le> z + 1" by simp
  with f show ?thesis by (auto simp: round_even_def Let_def) linarith+
qed

lemma fl_finite:
  assumes "\<bar>q\<bar> < 2 ^ 1022"
  shows "\<exists>r. fl q = Num r \<and> \<bar>r\<bar> \<le> 2 * \<bar>q\<bar> + 1"
proof (cases "q = 0")
  case True
  then show ?thesis by (simp add: fl_def)
next
  case False
  define e where "e = max (ilog2 \<bar>q\<bar>) (- 1022)"
  define u where "u = pow2 (e - 52)"
  define n where "n = round_even (\<bar>q\<bar> / u)"
  have upos: "0 < u" by (simp add: u_def)
  from False have qpos: "0 < \<bar>q\<bar>" by simp
  have u: "u \<le> \<bar>q\<bar> + 1"
  proof (cases "- 1022 \<le> ilog2 \<bar>q\<bar>")
    case True
    then have "e = ilog2 \<bar>q\<bar>" by (simp add: e_def)
    then have "u \<le> pow2 (ilog2 \<bar>q\<bar>)" by (simp add: u_def pow2_le_iff)
    also have "\<dots> \<le> \<bar>q\<bar>" using ilog2_bounds [OF qpos] by simp
    finally show ?thesis by simp
  next
    case False
    then have "e = - 1022" by (simp add: e_def)
    then have "u \<le> pow2 0" by (simp add: u_def pow2_le_iff)
    then have "u \<le> 1" by (simp add: pow2_def)
    with qpos show ?thesis by linarith
  qed
  have "0 \<le> \<bar>q\<bar> / u" using upos by simp
  from round_even_bounds [OF this] have n: "0 \<le> n" "of_int n \<le> \<bar>q\<bar> / u + 1"
    by (simp_all add: n_def)
  from n(2) upos have "of_int n * u \<le> (\<bar>q\<bar> / u + 1) * u"
    by (intro mult_right_mono) simp_all
  also have "\<dots> = \<bar>q\<bar> + u" using upos by (simp add: field_simps)
  finally have r: "of_int n * u \<le> \<bar>q\<bar> + u" .
  with u have r2: "of_int n * u \<le> 2 * \<bar>q\<bar> + 1" by linarith
  have r0: "0 \<le> of_int n * u" using n(1) upos by simp
  have "(2::real) * 2 ^ 1022 = 2 ^ 1023" "(2::real) * 2 ^ 1023 = 2 ^ 1024" "(1::real) \<le> 2 ^ 1023"
    by simp_all
  with r2 assms have "of_int n * u < 2 ^ 1024" by linarith
  then have "fl q = Num (if q < 0 then - (of_int n * u) else of_int n * u)"
    using False unfolding fl_def Let_def e_def [symmetric] u_def [symmetric] n_def [symmetric]
    by simp
  with r2 r0 show ?thesis by auto
qed

lemma jmul_zero_right: "jmul (Num x) (Num 0) = Num 0"
  by (simp add: fl_def)

lemma jmul_zero_left: "jmul (Num 0) (Num x) = Num 0"
  by (simp add: fl_def)

lemma fl_1: "fl 1 = Num 1"
  using fl_eqI [where q = 1 and e = 0 and n = 4503599627370496]
  by (simp add: pow2_def)

lemma calculateDistance_same_point:
  assumes lat: "\<bar>lat A\<bar> < 2 ^ 1000" and lng: "\<bar>lng A\<bar> < 2 ^ 1000"
    and cos: "\<forall>t. \<bar>m_cos M t\<bar> \<le> 1"
    and sqrt: "0 < m_sqrt M 1"
  shows "calculateDistance M A A = ''0.0 km''"
proof -
  have "\<bar>lat A\<bar> < 2 ^ 1022" using lat power_strict_increasing [of 1000 1022 "2::real"] by simp
  from fl_finite [OF this] obtain x where x: "fl (lat A) = Num x" "\<bar>x\<bar> \<le> 2 * \<bar>lat A\<bar> + 1"
    by blast
  have "\<bar>lng A\<bar> < 2 ^ 1022" using lng power_strict_increasing [of 1000 1022 "2::real"] by simp
  from fl_finite [OF this] obtain y where y: "fl (lng A) = Num y"
    by blast
  have zero: "jsub (Num v) (Num v) = Num 0" for v
    by (simp add: jsub_def fl_def)
  have d0: "jdiv (deg2rad (Num 0)) (Num 2) = Num 0"
    by (simp add: deg2rad_def pi_180 fl_def)
  have s0: "Math_sin M (Num 0) = Num 0" by simp
  have "\<bar>x * (5030569068109113 / 2 ^ 58)\<bar> \<le> \<bar>x\<bar>"
    by (simp add: abs_mult mult_left_le)
  also have "\<bar>x\<bar> < 2 * 2 ^ 1000 + 1" using x(2) lat by linarith
  also have "(2::real) * 2 ^ 1000 + 1 \<le> 2 ^ 1022"
  proof -
    have "(2::real) * 2 ^ 1000 + 1 \<le> 2 ^ 1001 + 2 ^ 1001" by simp
    also have "\<dots> = 2 ^ 1002" by simp
    also have "\<dots> \<le> 2 ^ 1022" by (intro power_increasing) simp_all
    finally show ?thesis .
  qed
  finally have "\<bar>x * (5030569068109113 / 2 ^ 58)\<bar> < 2 ^ 1022" .
  from fl_finite [OF this] obtain t where t: "deg2rad (Num x) = Num t"
    by (auto simp: deg2rad_def pi_180)
  obtain c where c: "Math_cos M (Num t) = Num c" "\<bar>c\<bar> \<le> 1"
    using cos by (cases "t = 0") auto
  have "\<bar>c\<bar> * \<bar>c\<bar> \<le> 1" using c(2) by (intro mult_le_one) simp_all
  then have "\<bar>c * c\<bar> \<le> 1" by (simp add: abs_mult)
  also have "(1::real) < 2 ^ 1022" by simp
  finally have "\<bar>c * c\<bar> < 2 ^ 1022" .
  from fl_finite [OF this] obtain p where p: "jmul (Num c) (Num c) = Num p"
    by auto
  have s_lat: "Math_sin M (jdiv (deg2rad (jsub (fl (lat A)) (fl (lat A)))) (Num 2)) = Num 0"
    unfolding x zero d0 by (rule s0)
  have s_lng: "Math_sin M (jdiv (deg2rad (jsub (fl (lng A)) (fl (lng A)))) (Num 2)) = Num 0"
    unfolding y zero d0 by (rule s0)
  have cc: "jmul (Math_cos M (deg2rad (fl (lat A)))) (Math_cos M (deg2rad (fl (lat A)))) = Num p"
    unfolding x t c(1) by (rule p)
  have a: "jadd (jmul (Num 0) (Num 0)) (jmul (jmul (Num p) (Num 0)) (Num 0)) = Num 0"
    by (simp add: fl_def)
  have one: "jsub (Num 1) (Num 0) = Num 1"
    using fl_1 by (simp add: jsub_def)
  have at: "Math_atan2 M (Math_sqrt M (Num 0)) (Math_sqrt M (Num 1)) = Num 0"
    using sqrt by simp
  have c0: "jmul (Num 6371) (jmul (Num 2) (Num 0)) = Num 0"
    by (simp add: fl_def)
  have "toFixed1 M (Num 0) = ''0.0''" by simp
  then show ?thesis
    unfolding calculateDistance_def Let_def s_lat s_lng cc a one at c0
    by simp
qed

section \<open>The claims\<close>

subsection \<open>C1: At most one accept succeeds\<close>

text \<open>
  C1. At most one accept succeeds. An accept of a request that is not in state searching
  changes nothing and emits nothing. An accept by a registered driver of a searching request
  commits: the request becomes accepted with that driver assigned. After it, whatever events
  the server handles next, the request (while it is in the ledger) stays accepted with the
  same driver assigned, and an accept of it from any socket leaves the whole state unchanged
  and emits nothing, so the losing driver gets no confirmation.
\<close>

theorem accept_at_most_once:
  assumes reach: "reachable st"
    and acc: "driver_accept sock k st = Inr (st1, out1)"
    and later: "run evs st1 = Inr (st2, out2)"
  shows "((\<forall>e. map_of (emergencies st) k = Some e \<longrightarrow> e_status e \<noteq> Searching) \<longrightarrow>
            st1 = st \<and> out1 = []) \<and>
         (\<forall>r e. map_of (drivers st) sock = Some r \<and> map_of (emergencies st) k = Some e \<and>
                e_status e = Searching \<longrightarrow>
            map_of (emergencies st1) k = Some (e\<lparr>e_status := Accepted, e_assignedDriver := Some r\<rparr>) \<and>
            (\<forall>e2. map_of (emergencies st2) k = Some e2 \<longrightarrow>
                     e_status e2 = Accepted \<and> e_assignedDriver e2 = Some r) \<and>
            (\<forall>sock'. driver_accept sock' k st2 = Inr (st2, [])))"
proof (intro conjI allI impI)
  assume "\<forall>e. map_of (emergencies st) k = Some e \<longrightarrow> e_status e \<noteq> Searching"
  from accept_not_searching [OF this, of sock] acc show "st1 = st" and "out1 = []" by simp_all
next
  fix r e
  assume c: "map_of (drivers st) sock = Some r \<and> map_of (emergencies st) k = Some e \<and> e_status e = Searching"
  from reach have "state_ok st" by (rule reachable_ok)
  with c have lt: "k < next_uuid st" by (auto simp: state_ok_def inv_ledger_def)
  from c acc have st1: "st1 = st\<lparr>objects := (objects st)[r := (objects st ! r)\<lparr>d_status := Busy\<rparr>],
      emergencies := AList.update k (e\<lparr>e_status := Accepted, e_assignedDriver := Some r\<rparr>) (emergencies st)\<rparr>"
    by (auto simp: driver_accept_def Let_def)
  then show committed: "map_of (emergencies st1) k = Some (e\<lparr>e_status := Accepted, e_assignedDriver := Some r\<rparr>)"
    by (simp add: update_conv')
  from lt st1 have lt1: "k < next_uuid st1" by simp
  from committed have acc1: "\<forall>e'. map_of (emergencies st1) k = Some e' \<longrightarrow>
      e_status e' = Accepted \<and> e_assignedDriver e' = Some r" by simp
  note fin = settled_run [OF lt1 acc1 later]
  { fix e2 assume "map_of (emergencies st2) k = Some e2"
    with fin show "e_status e2 = Accepted" and "e_assignedDriver e2 = Some r" by simp_all }
  { fix sock'
    from fin have "\<forall>e. map_of (emergencies st2) k = Some e \<longrightarrow> e_status e \<noteq> Searching" by auto
    then show "driver_accept sock' k st2 = Inr (st2, [])" by (rule accept_not_searching) }
qed

theorem accept_at_most_once_witness:
  "reachable (state_after two_drivers_one_request) \<and>
   map_of (drivers (state_after two_drivers_one_request)) ''d1'' = Some 0 \<and>
   map_option e_status (map_of (emergencies (state_after two_drivers_one_request)) 2) = Some Searching \<and>
   map_option e_assignedDriver
     (map_of (emergencies (state_after (two_drivers_one_request @
        [(''d1'', DriverAccept 2), (''d2'', DriverReject 2)]))) 2) = Some (Some 0) \<and>
   driver_accept ''d2'' 2
     (state_after (two_drivers_one_request @ [(''d1'', DriverAccept 2), (''d2'', DriverReject 2)])) =
   Inr (state_after (two_drivers_one_request @ [(''d1'', DriverAccept 2), (''d2'', DriverReject 2)]), [])"
proof -
  let ?A = "state_after two_drivers_one_request"
  let ?B = "state_after (two_drivers_one_request @ [(''d1'', DriverAccept 2)])"
  let ?C = "state_after (two_drivers_one_request @ [(''d1'', DriverAccept 2), (''d2'', DriverReject 2)])"
  have r: "reachable ?A" by (rule reachable_state_after)
  have a: "driver_accept ''d1'' 2 ?A = Inr (?B, snd (projr (driver_accept ''d1'' 2 ?A)))"
    by code_simp
  have l: "run [(''d2'', DriverReject 2)] ?B = Inr (?C, snd (projr (run [(''d2'', DriverReject 2)] ?B)))"
    by code_simp
  have d: "map_of (drivers ?A) ''d1'' = Some 0" by code_simp
  have e: "map_of (emergencies ?A) 2 = Some (the (map_of (emergencies ?A) 2))" by code_simp
  have s: "e_status (the (map_of (emergencies ?A) 2)) = Searching" by code_simp
  have s': "map_option e_status (map_of (emergencies ?A) 2) = Some Searching" by code_simp
  have c: "map_of (emergencies ?C) 2 \<noteq> None" by code_simp
  from accept_at_most_once [OF r a l] d e s
  have "(\<forall>e2. map_of (emergencies ?C) 2 = Some e2 \<longrightarrow>
           e_status e2 = Accepted \<and> e_assignedDriver e2 = Some 0) \<and>
        (\<forall>sock'. driver_accept sock' 2 ?C = Inr (?C, []))"
    by blast
  with r d s' c show ?thesis by auto
qed

subsection \<open>C2: Busy responders and assigned requests\<close>

text \<open>
  C2 as stated fails: the specification's exclusivity invariant does not hold of the
  server. The accept handler does not look at the driver's status, so a driver that was
  offered two emergencies while available can accept both: it is then busy and assigned to
  two accepted emergencies.
  When the patient cancels one of them the driver is set available although it is still the
  assigned driver of the other, that is, of exactly one accepted emergency.
\<close>

theorem responder_exclusive_counterexample:
  "map_of (drivers (state_after one_driver_two_requests)) ''d1'' = Some 0 \<and>
   d_status (objects (state_after one_driver_two_requests) ! 0) = Busy \<and>
   map fst (accepted_by (state_after one_driver_two_requests) 0) = [1, 2] \<and>
   \<not> responder_exclusive (state_after one_driver_two_requests) \<and>
   map_of (drivers (state_after (one_driver_two_requests @ [(''p'', PatientCancel 1)]))) ''d1'' = Some 0 \<and>
   d_status (objects (state_after (one_driver_two_requests @ [(''p'', PatientCancel 1)])) ! 0) = Available \<and>
   map fst (accepted_by (state_after (one_driver_two_requests @ [(''p'', PatientCancel 1)])) 0) = [2] \<and>
   \<not> responder_exclusive (state_after (one_driver_two_requests @ [(''p'', PatientCancel 1)]))"
  by code_simp

text \<open>
  C2, as the server has it. In every reachable state, a registered driver that is busy is
  the assigned driver of at least one accepted emergency in the ledger. When the requester
  cancels an emergency whose assigned driver is still registered, the emergency was accepted,
  it leaves the ledger, and that driver is available afterwards.
\<close>

theorem busy_responder_is_assigned:
  assumes reach: "reachable st"
  shows "(\<forall>sid r. map_of (drivers st) sid = Some r \<and> d_status (objects st ! r) = Busy \<longrightarrow>
            (\<exists>k e. map_of (emergencies st) k = Some e \<and> e_status e = Accepted \<and>
                   e_assignedDriver e = Some r)) \<and>
         (\<forall>sid r k e st' out.
            map_of (drivers st) sid = Some r \<and> map_of (emergencies st) k = Some e \<and>
            e_assignedDriver e = Some r \<and>
            patient_cancel (e_patientSocketId e) k st = Inr (st', out) \<longrightarrow>
            e_status e = Accepted \<and> map_of (emergencies st') k = None \<and>
            map_of (drivers st') sid = Some r \<and> d_status (objects st' ! r) = Available)"
proof -
  from reach have ok: "state_ok st" by (rule reachable_ok)
  then have D: "inv_drivers st" and L: "inv_ledger st" and B: "inv_busy st"
    by (simp_all add: state_ok_def)
  show ?thesis
  proof (intro conjI allI impI)
    fix sid r
    assume "map_of (drivers st) sid = Some r \<and> d_status (objects st ! r) = Busy"
    with B show "\<exists>k e. map_of (emergencies st) k = Some e \<and> e_status e = Accepted \<and>
                   e_assignedDriver e = Some r"
      unfolding inv_busy_def by blast
  next
    fix sid r k e st' out
    assume h: "map_of (drivers st) sid = Some r \<and> map_of (emergencies st) k = Some e \<and>
            e_assignedDriver e = Some r \<and>
            patient_cancel (e_patientSocketId e) k st = Inr (st', out)"
    from h D have r: "r < length (objects st)" "d_socketId (objects st ! r) = sid"
      unfolding inv_drivers_def by blast+
    from h L show "e_status e = Accepted" by (auto simp: inv_ledger_def)
    from h r have st': "st' = st\<lparr>objects := (objects st)[r := (objects st ! r)\<lparr>d_status := Available\<rparr>],
                              emergencies := AList.delete k (emergencies st)\<rparr>"
      by (auto simp: patient_cancel_def Let_def delete_update_same)
    then show "map_of (emergencies st') k = None" by (simp add: delete_conv')
    from st' h show "map_of (drivers st') sid = Some r" by simp
    from st' r show "d_status (objects st' ! r) = Available" by simp
  qed
qed

theorem busy_responder_is_assigned_witness:
  "reachable (state_after one_driver_two_requests) \<and>
   map_of (drivers (state_after one_driver_two_requests)) ''d1'' = Some 0 \<and>
   d_status (objects (state_after one_driver_two_requests) ! 0) = Busy \<and>
   (\<exists>k e. map_of (emergencies (state_after one_driver_two_requests)) k = Some e \<and>
          e_status e = Accepted \<and> e_assignedDriver e = Some 0) \<and>
   d_status (objects (state_after (one_driver_two_requests @ [(''p'', PatientCancel 2)])) ! 0) = Available"
proof -
  let ?A = "state_after one_driver_two_requests"
  let ?B = "state_after (one_driver_two_requests @ [(''p'', PatientCancel 2)])"
  have r: "reachable ?A" by (rule reachable_state_after)
  have d: "map_of (drivers ?A) ''d1'' = Some 0" by code_simp
  have b: "d_status (objects ?A ! 0) = Busy" by code_simp
  have e: "map_of (emergencies ?A) 2 = Some (the (map_of (emergencies ?A) 2))" by code_simp
  have a: "e_assignedDriver (the (map_of (emergencies ?A) 2)) = Some 0" by code_simp
  have c: "patient_cancel (e_patientSocketId (the (map_of (emergencies ?A) 2))) 2 ?A =
             Inr (?B, [(''d1'', EmergencyCancelled 2)])" by code_simp
  note main = busy_responder_is_assigned [OF r]
  from main d b have 1: "\<exists>k e. map_of (emergencies ?A) k = Some e \<and>
          e_status e = Accepted \<and> e_assignedDriver e = Some 0" by blast
  from main d e a c have 2: "d_status (objects ?B ! 0) = Available" by blast
  from r d b 1 2 show ?thesis by blast
qed

subsection \<open>C3: Disconnect of a requester\<close>

text \<open>
  C3 as stated fails. The disconnect handler removes the socket's driver and hospital records and nothing else.
  A searching emergency whose patient disconnects stays searching in the ledger, and a
  driver's accept that is handled afterwards commits: it assigns the driver and notifies
  the patient's room and the driver.
\<close>

theorem disconnect_cancels_counterexample:
  "map_option e_patientSocketId (map_of (emergencies (state_after two_drivers_one_request)) 2) = Some ''p'' \<and>
   map_option e_status
     (map_of (emergencies (state_after (two_drivers_one_request @ [(''p'', Disconnect)]))) 2) =
     Some Searching \<and>
   map_option (\<lambda>e. (e_status e, e_assignedDriver e))
     (map_of (emergencies (state_after (two_drivers_one_request @
        [(''p'', Disconnect), (''d1'', DriverAccept 2)]))) 2) = Some (Accepted, Some 0) \<and>
   map fst (snd (projr (driver_accept ''d1'' 2
      (state_after (two_drivers_one_request @ [(''p'', Disconnect)]))))) = [''p'', ''d1'']"
  by code_simp

text \<open>
  C3, as the server has it. Handling a socket's disconnect emits nothing and leaves the
  ledger and the driver objects as they were, so the socket's own requests keep their state.
  Consequently an accept of a searching request by a driver registered on another socket,
  handled after the requester's disconnect, commits and is confirmed to that driver.
\<close>

theorem disconnect_leaves_requests:
  "\<exists>st'. disconnect sock st = Inr (st', []) \<and>
         emergencies st' = emergencies st \<and> objects st' = objects st \<and>
         (\<forall>d r k e. d \<noteq> sock \<and> map_of (drivers st) d = Some r \<and>
                    map_of (emergencies st) k = Some e \<and> e_status e = Searching \<longrightarrow>
            (\<exists>st'' out. driver_accept d k st' = Inr (st'', out) \<and>
               map_of (emergencies st'') k =
                 Some (e\<lparr>e_status := Accepted, e_assignedDriver := Some r\<rparr>) \<and>
               (d, DriverAssignmentConfirmed k (e\<lparr>e_status := Accepted, e_assignedDriver := Some r\<rparr>)
                     ((objects st ! r)\<lparr>d_status := Busy\<rparr>)) \<in> set out))"
proof -
  let ?st' = "st\<lparr>drivers := AList.delete sock (drivers st), hospitals := AList.delete sock (hospitals st)\<rparr>"
  have 1: "disconnect sock st = Inr (?st', [])" by (simp add: disconnect_def)
  have 2: "\<exists>st'' out. driver_accept d k ?st' = Inr (st'', out) \<and>
               map_of (emergencies st'') k =
                 Some (e\<lparr>e_status := Accepted, e_assignedDriver := Some r\<rparr>) \<and>
               (d, DriverAssignmentConfirmed k (e\<lparr>e_status := Accepted, e_assignedDriver := Some r\<rparr>)
                     ((objects st ! r)\<lparr>d_status := Busy\<rparr>)) \<in> set out"
    if "d \<noteq> sock \<and> map_of (drivers st) d = Some r \<and>
        map_of (emergencies st) k = Some e \<and> e_status e = Searching" for d r k e
  proof -
    from that have "map_of (drivers ?st') d = Some r" "map_of (emergencies ?st') k = Some e" "e_status e = Searching"
      by (simp_all add: delete_conv')
    from accept_commit [OF this] show ?thesis
      by (simp add: update_conv')
  qed
  from 1 2 show ?thesis by (intro exI [of _ ?st']) simp
qed

theorem disconnect_leaves_requests_witness:
  "map_of (drivers (state_after two_drivers_one_request)) ''d1'' = Some 0 \<and>
   map_option e_status (map_of (emergencies (state_after two_drivers_one_request)) 2) = Some Searching \<and>
   (\<exists>st'. disconnect ''p'' (state_after two_drivers_one_request) = Inr (st', []) \<and>
      emergencies st' = emergencies (state_after two_drivers_one_request) \<and>
      (\<exists>st'' out. driver_accept ''d1'' 2 st' = Inr (st'', out) \<and>
          map_option e_assignedDriver (map_of (emergencies st'') 2) = Some (Some 0)))"
proof -
  let ?A = "state_after two_drivers_one_request"
  have d: "map_of (drivers ?A) ''d1'' = Some 0" by code_simp
  have e: "map_of (emergencies ?A) 2 = Some (the (map_of (emergencies ?A) 2))" by code_simp
  have s: "e_status (the (map_of (emergencies ?A) 2)) = Searching" by code_simp
  have s': "map_option e_status (map_of (emergencies ?A) 2) = Some Searching" by code_simp
  have n: "''d1'' \<noteq> ''p''" by simp
  from disconnect_leaves_requests [of "''p''" ?A] obtain st' where
    1: "disconnect ''p'' ?A = Inr (st', [])" "emergencies st' = emergencies ?A" and
    2: "\<forall>d r k e. d \<noteq> ''p'' \<and> map_of (drivers ?A) d = Some r \<and>
                    map_of (emergencies ?A) k = Some e \<and> e_status e = Searching \<longrightarrow>
            (\<exists>st'' out. driver_accept d k st' = Inr (st'', out) \<and>
               map_of (emergencies st'') k =
                 Some (e\<lparr>e_status := Accepted, e_assignedDriver := Some r\<rparr>) \<and>
               (d, DriverAssignmentConfirmed k (e\<lparr>e_status := Accepted, e_assignedDriver := Some r\<rparr>)
                     ((objects ?A ! r)\<lparr>d_status := Busy\<rparr>)) \<in> set out)"
    by blast
  from 2 n d e s obtain st'' out where "driver_accept ''d1'' 2 st' = Inr (st'', out)"
     "map_of (emergencies st'') 2 =
        Some ((the (map_of (emergencies ?A) 2))\<lparr>e_status := Accepted, e_assignedDriver := Some 0\<rparr>)"
    by blast
  then have "\<exists>st'' out. driver_accept ''d1'' 2 st' = Inr (st'', out) \<and>
          map_option e_assignedDriver (map_of (emergencies st'') 2) = Some (Some 0)"
    by auto
  with d s' 1 show ?thesis by blast
qed

subsection \<open>C4: What a committing accept does\<close>

text \<open>
  C4. When an accept commits (a registered driver accepts a searching request in a reachable
  state), the driver object is marked busy and the handler emits, in this order: to the
  requester's room the assignment with the driver's name, vehicle and the ETA string
  \<^verbatim>\<open>5 mins\<close>; to the accepting socket the confirmation; and to every socket in the hospital
  map, without any selection, the incoming-patient message with the request id, severity,
  the ETA string \<^verbatim>\<open>8 mins\<close> and the driver's vehicle.
\<close>

theorem accept_success_effects:
  assumes "reachable st"
    and "map_of (drivers st) sock = Some r"
    and "map_of (emergencies st) k = Some e"
    and "e_status e = Searching"
  shows "\<exists>st'. driver_accept sock k st =
           Inr (st',
                (e_patientSocketId e,
                   EmergencyDriverAssigned k (d_name (objects st ! r)) (d_vehicle (objects st ! r)) ''5 mins'') #
                (sock, DriverAssignmentConfirmed k (e\<lparr>e_status := Accepted, e_assignedDriver := Some r\<rparr>)
                         ((objects st ! r)\<lparr>d_status := Busy\<rparr>)) #
                map (\<lambda>(h, _). (h, HospitalIncomingPatient k (e_severity e) ''8 mins'' (d_vehicle (objects st ! r))))
                    (hospitals st)) \<and>
           map_of (drivers st') sock = Some r \<and> d_status (objects st' ! r) = Busy \<and>
           map_of (emergencies st') k = Some (e\<lparr>e_status := Accepted, e_assignedDriver := Some r\<rparr>)"
proof -
  from assms(1) have "inv_drivers st" using reachable_ok by (simp add: state_ok_def)
  with assms(2) have "r < length (objects st)" unfolding inv_drivers_def by blast
  with accept_commit [OF assms(2-4)] assms(2) show ?thesis
    by (simp add: update_conv')
qed

theorem accept_success_effects_witness:
  "reachable (state_after driver_hospitals_request) \<and>
   map_of (drivers (state_after driver_hospitals_request)) ''d1'' = Some 0 \<and>
   map_option e_status (map_of (emergencies (state_after driver_hospitals_request)) 3) = Some Searching \<and>
   map fst (hospitals (state_after driver_hospitals_request)) = [''h1'', ''h2''] \<and>
   (\<exists>st' confirmation.
      driver_accept ''d1'' 3 (state_after driver_hospitals_request) =
        Inr (st', [(''p'', EmergencyDriverAssigned 3 ''Unknown Driver'' ''MH-XX-XXXX'' ''5 mins''),
                   (''d1'', confirmation),
                   (''h1'', HospitalIncomingPatient 3 ''high'' ''8 mins'' ''MH-XX-XXXX''),
                   (''h2'', HospitalIncomingPatient 3 ''high'' ''8 mins'' ''MH-XX-XXXX'')]) \<and>
      d_status (objects st' ! 0) = Busy)"
proof -
  let ?A = "state_after driver_hospitals_request"
  have r: "reachable ?A" by (rule reachable_state_after)
  have d: "map_of (drivers ?A) ''d1'' = Some 0" by code_simp
  have e: "map_of (emergencies ?A) 3 = Some (the (map_of (emergencies ?A) 3))" by code_simp
  have s: "e_status (the (map_of (emergencies ?A) 3)) = Searching" by code_simp
  have s': "map_option e_status (map_of (emergencies ?A) 3) = Some Searching" by code_simp
  have h: "map fst (hospitals ?A) = [''h1'', ''h2'']" by code_simp
  have p: "e_patientSocketId (the (map_of (emergencies ?A) 3)) = ''p''"
    "d_name (objects ?A ! 0) = ''Unknown Driver''" "d_vehicle (objects ?A ! 0) = ''MH-XX-XXXX''"
    "e_severity (the (map_of (emergencies ?A) 3)) = ''high''"
    by code_simp+
  have m: "map (\<lambda>(h, _). (h, HospitalIncomingPatient 3 ''high'' ''8 mins'' ''MH-XX-XXXX'')) (hospitals ?A) =
        [(''h1'', HospitalIncomingPatient 3 ''high'' ''8 mins'' ''MH-XX-XXXX''),
         (''h2'', HospitalIncomingPatient 3 ''high'' ''8 mins'' ''MH-XX-XXXX'')]"
    by code_simp
  from accept_success_effects [OF r d e s] obtain st' where
    "driver_accept ''d1'' 3 ?A =
       Inr (st', [(''p'', EmergencyDriverAssigned 3 ''Unknown Driver'' ''MH-XX-XXXX'' ''5 mins''),
                   (''d1'', DriverAssignmentConfirmed 3
                      ((the (map_of (emergencies ?A) 3))\<lparr>e_status := Accepted, e_assignedDriver := Some 0\<rparr>)
                      ((objects ?A ! 0)\<lparr>d_status := Busy\<rparr>)),
                   (''h1'', HospitalIncomingPatient 3 ''high'' ''8 mins'' ''MH-XX-XXXX''),
                   (''h2'', HospitalIncomingPatient 3 ''high'' ''8 mins'' ''MH-XX-XXXX'')])"
    "d_status (objects st' ! 0) = Busy"
    unfolding p m by auto
  with r d s' h show ?thesis by blast
qed

subsection \<open>C5: Reject and re-broadcast\<close>

text \<open>
  C5 as stated fails. The reject handler looks up the request and, if it is in the ledger, calls the broadcast
  whatever its state. Here request 3 is already accepted by the first driver; the second
  driver's reject still produces offers for it, to the rejecting driver itself and to the
  third driver.
\<close>

theorem reject_rebroadcast_counterexample:
  "map_option e_status (map_of (emergencies (state_after three_drivers_accepted)) 3) = Some Accepted \<and>
   driver_reject ''d2'' 3 (state_after three_drivers_accepted) =
     Inr (state_after three_drivers_accepted,
          [(''d2'', EmergencyNewRequest 3 unknown_location ''high'' ''accident''
                     (CalculateDistance mumbai unknown_location)),
           (''d3'', EmergencyNewRequest 3 unknown_location ''high'' ''accident''
                     (CalculateDistance mumbai unknown_location))])"
  by code_simp

text \<open>
  C5, as the server has it. A reject of a request that is in the ledger, in whatever state,
  re-broadcasts it and changes no state. Unless the broadcast throws (it does not when every
  available driver has a location), every registered driver other than the rejecting one
  whose status is available is sent an offer for the request, annotated with the distance
  from its own location, and offers are sent only to registered drivers whose status is
  available. Whether the rejecting driver is among them is not stated here.
\<close>

theorem reject_rebroadcast:
  assumes "map_of (emergencies st) k = Some e"
  shows "((\<forall>sid r. (sid, r) \<in> set (drivers st) \<and> d_status (objects st ! r) = Available \<longrightarrow>
              d_location (objects st ! r) \<noteq> None) \<longrightarrow>
            (\<exists>out. driver_reject sock k st = Inr (st, out))) \<and>
         (\<forall>st' out. driver_reject sock k st = Inr (st', out) \<longrightarrow>
            st' = st \<and>
            (\<forall>sid r. map_of (drivers st) sid = Some r \<and> sid \<noteq> sock \<and>
                      d_status (objects st ! r) = Available \<longrightarrow>
               (\<exists>l. d_location (objects st ! r) = Some l \<and>
                    (sid, EmergencyNewRequest (e_id e) (e_location e) (e_severity e) (e_type e)
                            (CalculateDistance l (e_location e))) \<in> set out)) \<and>
            (\<forall>sid k' l s t d. (sid, EmergencyNewRequest k' l s t d) \<in> set out \<longrightarrow>
               (\<exists>r. (sid, r) \<in> set (drivers st) \<and> d_status (objects st ! r) = Available)))"
proof (intro conjI allI impI)
  assume "\<forall>sid r. (sid, r) \<in> set (drivers st) \<and> d_status (objects st ! r) = Available \<longrightarrow>
              d_location (objects st ! r) \<noteq> None"
  from broadcast_defined [OF this, of e] assms
  show "\<exists>out. driver_reject sock k st = Inr (st, out)"
    by (auto simp: driver_reject_def)
next
  fix st' out
  assume r: "driver_reject sock k st = Inr (st', out)"
  with assms show "st' = st" by (auto simp: driver_reject_def split: sum.splits)
  from r assms have b: "broadcastToAvailableDrivers e st = Inr out"
    by (auto simp: driver_reject_def split: sum.splits)
  note res = broadcast_result [OF b]
  { fix sid r
    assume a: "map_of (drivers st) sid = Some r \<and> sid \<noteq> sock \<and> d_status (objects st ! r) = Available"
    then have "(sid, r) \<in> set (drivers st)" by (auto dest: map_of_SomeD)
    with a res show "\<exists>l. d_location (objects st ! r) = Some l \<and>
                    (sid, EmergencyNewRequest (e_id e) (e_location e) (e_severity e) (e_type e)
                            (CalculateDistance l (e_location e))) \<in> set out"
      by blast }
  { fix sid k' l s t d
    assume "(sid, EmergencyNewRequest k' l s t d) \<in> set out"
    with res show "\<exists>r. (sid, r) \<in> set (drivers st) \<and> d_status (objects st ! r) = Available"
      by blast }
qed

theorem reject_rebroadcast_witness:
  "map_option e_status (map_of (emergencies (state_after three_drivers_accepted)) 3) = Some Accepted \<and>
   map_of (drivers (state_after three_drivers_accepted)) ''d3'' = Some 2 \<and>
   d_status (objects (state_after three_drivers_accepted) ! 2) = Available \<and>
   (\<exists>out. driver_reject ''d2'' 3 (state_after three_drivers_accepted) =
             Inr (state_after three_drivers_accepted, out) \<and>
          (''d3'', EmergencyNewRequest 3 unknown_location ''high'' ''accident''
                     (CalculateDistance mumbai unknown_location)) \<in> set out)"
proof -
  let ?S = "state_after three_drivers_accepted"
  let ?e = "the (map_of (emergencies ?S) 3)"
  have e: "map_of (emergencies ?S) 3 = Some ?e" by code_simp
  have s: "map_option e_status (map_of (emergencies ?S) 3) = Some Accepted" by code_simp
  have d: "map_of (drivers ?S) ''d3'' = Some 2" by code_simp
  have a: "d_status (objects ?S ! 2) = Available" by code_simp
  have l: "d_location (objects ?S ! 2) = Some mumbai" by code_simp
  have f: "e_id ?e = 3" "e_location ?e = unknown_location" "e_severity ?e = ''high''"
    "e_type ?e = ''accident''"
    by code_simp+
  have "list_all (\<lambda>(sid, r). d_status (objects ?S ! r) = Available \<longrightarrow> d_location (objects ?S ! r) \<noteq> None)
          (drivers ?S)"
    by code_simp
  then have locs: "\<forall>sid r. (sid, r) \<in> set (drivers ?S) \<and> d_status (objects ?S ! r) = Available \<longrightarrow>
              d_location (objects ?S ! r) \<noteq> None"
    by (auto simp: list_all_iff)
  note main = reject_rebroadcast [OF e, of "''d2''"]
  from main locs obtain out where out: "driver_reject ''d2'' 3 ?S = Inr (?S, out)" by blast
  have n: "''d3'' \<noteq> ''d2''" by simp
  from main out d n a obtain l' where "d_location (objects ?S ! 2) = Some l'"
    "(''d3'', EmergencyNewRequest (e_id ?e) (e_location ?e) (e_severity ?e) (e_type ?e)
        (CalculateDistance l' (e_location ?e))) \<in> set out"
    by blast
  with l f have "(''d3'', EmergencyNewRequest 3 unknown_location ''high'' ''accident''
                     (CalculateDistance mumbai unknown_location)) \<in> set out"
    by simp
  with s d a out show ?thesis by blast
qed

subsection \<open>C6: A new request when no driver is available\<close>

text \<open>
  C6. When no registered driver is available, a new-request event (carrying a payload
  object) is acknowledged to the requester and followed by the no-drivers message for the
  new request id, both to the requester's socket and nothing else; the request is in the
  ledger under that id in state searching with no driver assigned.
\<close>

theorem sos_no_available_drivers:
  assumes "\<forall>sid r. (sid, r) \<in> set (drivers st) \<longrightarrow> d_status (objects st ! r) \<noteq> Available"
  shows "\<exists>st' e. patient_sos sock now (Some d) st =
                  Inr (st', [(sock, EmergencyCreated (next_uuid st) Searching),
                             (sock, EmergencyNoDrivers (next_uuid st))]) \<and>
                map_of (emergencies st') (next_uuid st) = Some e \<and>
                e_id e = next_uuid st \<and> e_patientSocketId e = sock \<and>
                e_status e = Searching \<and> e_assignedDriver e = None \<and>
                drivers st' = drivers st \<and> objects st' = objects st"
proof -
  from assms have "\<forall>(sid, r) \<in> set (drivers st). d_status (objects st ! r) \<noteq> Available"
    by blast
  from notify_drivers_none_available [OF this] show ?thesis
    by (simp add: patient_sos_def uuidv4_def Let_def broadcastToAvailableDrivers_def update_conv')
qed

theorem sos_no_available_drivers_witness:
  "map (\<lambda>(sid, r). (sid, d_status (objects (state_after one_driver_two_requests) ! r)))
     (drivers (state_after one_driver_two_requests)) = [(''d1'', Busy)] \<and>
   next_uuid (state_after one_driver_two_requests) = 3 \<and>
   (\<exists>st' e. patient_sos ''q'' 9 (Some no_sos_fields) (state_after one_driver_two_requests) =
              Inr (st', [(''q'', EmergencyCreated 3 Searching), (''q'', EmergencyNoDrivers 3)]) \<and>
            map_of (emergencies st') 3 = Some e \<and> e_status e = Searching)"
proof -
  let ?S = "state_after one_driver_two_requests"
  have m: "map (\<lambda>(sid, r). (sid, d_status (objects ?S ! r))) (drivers ?S) = [(''d1'', Busy)]"
    by code_simp
  have n: "next_uuid ?S = 3" by code_simp
  have "list_all (\<lambda>(sid, r). d_status (objects ?S ! r) \<noteq> Available) (drivers ?S)"
    by code_simp
  then have "\<forall>sid r. (sid, r) \<in> set (drivers ?S) \<longrightarrow> d_status (objects ?S ! r) \<noteq> Available"
    by (auto simp: list_all_iff)
  from sos_no_available_drivers [OF this, of "''q''" 9 no_sos_fields] m n
  show ?thesis by auto
qed

subsection \<open>C7: Cancel by the requester\<close>

text \<open>
  C7. In a reachable state, a cancel that names an id not in the ledger (unknown, or already
  cancelled, since a cancelled request is deleted at once) returns normally, changes nothing
  and emits nothing. A requester's cancel of its own request, searching or accepted, returns
  normally and removes the request from the ledger, so that a second cancel is a no-op. If a
  driver was assigned, the cancelled message goes to that driver's socket, and the driver
  registered on that socket (the assigned driver itself, when it is still registered) is
  available afterwards; if none was assigned nothing is emitted.
\<close>

theorem cancel_own_or_unknown:
  assumes reach: "reachable st"
  shows "(map_of (emergencies st) k = None \<longrightarrow> patient_cancel sock k st = Inr (st, [])) \<and>
         (\<forall>e. map_of (emergencies st) k = Some e \<and> e_patientSocketId e = sock \<longrightarrow>
            (\<exists>st' out. patient_cancel sock k st = Inr (st', out) \<and>
               map_of (emergencies st') k = None \<and>
               patient_cancel sock k st' = Inr (st', []) \<and>
               drivers st' = drivers st \<and>
               (e_assignedDriver e = None \<longrightarrow> out = [] \<and> objects st' = objects st) \<and>
               (\<forall>a. e_assignedDriver e = Some a \<longrightarrow>
                  out = [(d_socketId (objects st ! a), EmergencyCancelled k)] \<and>
                  (\<forall>r. map_of (drivers st) (d_socketId (objects st ! a)) = Some r \<longrightarrow>
                       d_status (objects st' ! r) = Available) \<and>
                  (\<forall>sid. map_of (drivers st) sid = Some a \<longrightarrow>
                       sid = d_socketId (objects st ! a) \<and> d_status (objects st' ! a) = Available))))"
proof (intro conjI allI impI)
  assume "map_of (emergencies st) k = None"
  then show "patient_cancel sock k st = Inr (st, [])" by (simp add: patient_cancel_def)
next
  fix e
  assume own: "map_of (emergencies st) k = Some e \<and> e_patientSocketId e = sock"
  from reach have "state_ok st" by (rule reachable_ok)
  then have D: "inv_drivers st" by (simp add: state_ok_def)
  obtain st' out where c: "patient_cancel sock k st = Inr (st', out)"
    using cancel_total [of sock k st] by auto
  from cancel_effect [OF c] own have eff:
    "drivers st' = drivers st" "emergencies st' = AList.delete k (emergencies st)"
    "case e_assignedDriver e of
       None \<Rightarrow> objects st' = objects st \<and> out = []
     | Some a \<Rightarrow>
         out = [(d_socketId (objects st ! a), EmergencyCancelled k)] \<and>
         objects st' =
           (case map_of (drivers st) (d_socketId (objects st ! a)) of
              None \<Rightarrow> objects st
            | Some r \<Rightarrow> (objects st)[r := (objects st ! r)\<lparr>d_status := Available\<rparr>])"
    by auto
  have gone: "map_of (emergencies st') k = None" by (simp add: eff(2) delete_conv')
  then have again: "patient_cancel sock k st' = Inr (st', [])" by (simp add: patient_cancel_def)
  have none: "out = [] \<and> objects st' = objects st" if "e_assignedDriver e = None"
    using eff(3) that by simp
  have some: "out = [(d_socketId (objects st ! a), EmergencyCancelled k)] \<and>
              (\<forall>r. map_of (drivers st) (d_socketId (objects st ! a)) = Some r \<longrightarrow>
                   d_status (objects st' ! r) = Available) \<and>
              (\<forall>sid. map_of (drivers st) sid = Some a \<longrightarrow>
                   sid = d_socketId (objects st ! a) \<and> d_status (objects st' ! a) = Available)"
    if a: "e_assignedDriver e = Some a" for a
  proof (intro conjI allI impI)
    from eff(3) a show "out = [(d_socketId (objects st ! a), EmergencyCancelled k)]" by simp
  next
    fix r
    assume r: "map_of (drivers st) (d_socketId (objects st ! a)) = Some r"
    with D have "r < length (objects st)" unfolding inv_drivers_def by blast
    with eff(3) a r show "d_status (objects st' ! r) = Available" by simp
  next
    fix sid
    assume reg: "map_of (drivers st) sid = Some a"
    with D have lt: "a < length (objects st)" and sid: "d_socketId (objects st ! a) = sid"
      unfolding inv_drivers_def by blast+
    from sid show "sid = d_socketId (objects st ! a)" by simp
    from eff(3) a reg sid lt show "d_status (objects st' ! a) = Available" by simp
  qed
  have "patient_cancel sock k st = Inr (st', out) \<and>
               map_of (emergencies st') k = None \<and>
               patient_cancel sock k st' = Inr (st', []) \<and>
               drivers st' = drivers st \<and>
               (e_assignedDriver e = None \<longrightarrow> out = [] \<and> objects st' = objects st) \<and>
               (\<forall>a. e_assignedDriver e = Some a \<longrightarrow>
                  out = [(d_socketId (objects st ! a), EmergencyCancelled k)] \<and>
                  (\<forall>r. map_of (drivers st) (d_socketId (objects st ! a)) = Some r \<longrightarrow>
                       d_status (objects st' ! r) = Available) \<and>
                  (\<forall>sid. map_of (drivers st) sid = Some a \<longrightarrow>
                       sid = d_socketId (objects st ! a) \<and> d_status (objects st' ! a) = Available))"
    using c gone again eff(1) none some by (intro conjI allI impI) simp_all
  then show "\<exists>st' out. patient_cancel sock k st = Inr (st', out) \<and>
               map_of (emergencies st') k = None \<and>
               patient_cancel sock k st' = Inr (st', []) \<and>
               drivers st' = drivers st \<and>
               (e_assignedDriver e = None \<longrightarrow> out = [] \<and> objects st' = objects st) \<and>
               (\<forall>a. e_assignedDriver e = Some a \<longrightarrow>
                  out = [(d_socketId (objects st ! a), EmergencyCancelled k)] \<and>
                  (\<forall>r. map_of (drivers st) (d_socketId (objects st ! a)) = Some r \<longrightarrow>
                       d_status (objects st' ! r) = Available) \<and>
                  (\<forall>sid. map_of (drivers st) sid = Some a \<longrightarrow>
                       sid = d_socketId (objects st ! a) \<and> d_status (objects st' ! a) = Available))"
    by (intro exI)
qed

theorem cancel_own_or_unknown_witness:
  "reachable (state_after three_drivers_accepted) \<and>
   map_of (emergencies (state_after three_drivers_accepted)) 7 = None \<and>
   patient_cancel ''p'' 7 (state_after three_drivers_accepted) =
     Inr (state_after three_drivers_accepted, []) \<and>
   map_option (\<lambda>e. (e_patientSocketId e, e_status e, e_assignedDriver e))
     (map_of (emergencies (state_after three_drivers_accepted)) 3) = Some (''p'', Accepted, Some 0) \<and>
   map_of (drivers (state_after three_drivers_accepted)) ''d1'' = Some 0 \<and>
   d_status (objects (state_after three_drivers_accepted) ! 0) = Busy \<and>
   (\<exists>st'. patient_cancel ''p'' 3 (state_after three_drivers_accepted) =
            Inr (st', [(''d1'', EmergencyCancelled 3)]) \<and>
          map_of (emergencies st') 3 = None \<and> d_status (objects st' ! 0) = Available)"
proof -
  let ?S = "state_after three_drivers_accepted"
  let ?e = "the (map_of (emergencies ?S) 3)"
  have r: "reachable ?S" by (rule reachable_state_after)
  have u: "map_of (emergencies ?S) 7 = None" by code_simp
  have e: "map_of (emergencies ?S) 3 = Some ?e" by code_simp
  have o: "e_patientSocketId ?e = ''p''" by code_simp
  have a: "e_assignedDriver ?e = Some 0" by code_simp
  have i: "map_option (\<lambda>e. (e_patientSocketId e, e_status e, e_assignedDriver e))
     (map_of (emergencies ?S) 3) = Some (''p'', Accepted, Some 0)" by code_simp
  have d: "map_of (drivers ?S) ''d1'' = Some 0" by code_simp
  have b: "d_status (objects ?S ! 0) = Busy" by code_simp
  have s: "d_socketId (objects ?S ! 0) = ''d1''" by code_simp
  note main = cancel_own_or_unknown [OF r]
  have 1: "patient_cancel ''p'' 7 ?S = Inr (?S, [])"
    using main [of 7 "''p''", THEN conjunct1] u by (rule mp)
  have own: "map_of (emergencies ?S) 3 = Some ?e \<and> e_patientSocketId ?e = ''p''"
    using e o by (rule conjI)
  note m2 = main [of 3 "''p''", THEN conjunct2, THEN spec, THEN mp, OF own]
  then obtain st' out where
    c: "patient_cancel ''p'' 3 ?S = Inr (st', out)" and g: "map_of (emergencies st') 3 = None"
    and x: "\<forall>a. e_assignedDriver ?e = Some a \<longrightarrow>
                  out = [(d_socketId (objects ?S ! a), EmergencyCancelled 3)] \<and>
                  (\<forall>r. map_of (drivers ?S) (d_socketId (objects ?S ! a)) = Some r \<longrightarrow>
                       d_status (objects st' ! r) = Available) \<and>
                  (\<forall>sid. map_of (drivers ?S) sid = Some a \<longrightarrow>
                       sid = d_socketId (objects ?S ! a) \<and> d_status (objects st' ! a) = Available)"
    by (elim exE conjE)
  from x [THEN spec, THEN mp, OF a] have
    y: "out = [(d_socketId (objects ?S ! 0), EmergencyCancelled 3)]"
    and z: "\<forall>sid. map_of (drivers ?S) sid = Some 0 \<longrightarrow>
                       sid = d_socketId (objects ?S ! 0) \<and> d_status (objects st' ! 0) = Available"
    by simp_all
  from y s have out: "out = [(''d1'', EmergencyCancelled 3)]" by simp
  from z [THEN spec, THEN mp, OF d] have av: "d_status (objects st' ! 0) = Available" by simp
  have 2: "\<exists>st'. patient_cancel ''p'' 3 ?S = Inr (st', [(''d1'', EmergencyCancelled 3)]) \<and>
          map_of (emergencies st') 3 = None \<and> d_status (objects st' ! 0) = Available"
    using c g av unfolding out by (intro exI [of _ st'] conjI)
  show ?thesis
    using r u 1 i d b 2 by (intro conjI)
qed

subsection \<open>C8: Events with missing fields\<close>

text \<open>
  C8 as stated fails. Neither handler validates its payload. A registration with no name, vehicle or location
  and a new request with no location, severity or type are both accepted: the record is
  stored, with defaults for the missing fields, and the sender gets the success
  acknowledgement.
\<close>

theorem missing_fields_counterexample:
  "driver_register ''d1'' (Some no_fields) init_state =
     Inr (\<lparr>drivers = [(''d1'', 0)], emergencies = [], hospitals = [],
           objects = [\<lparr>d_id = 0, d_socketId = ''d1'', d_name = ''Unknown Driver'',
                       d_vehicle = ''MH-XX-XXXX'', d_location = Some mumbai, d_status = Available\<rparr>],
           next_uuid = 1\<rparr>,
          [(''d1'', DriverRegistered True
                     \<lparr>d_id = 0, d_socketId = ''d1'', d_name = ''Unknown Driver'',
                      d_vehicle = ''MH-XX-XXXX'', d_location = Some mumbai, d_status = Available\<rparr>)]) \<and>
   patient_sos ''p'' 0 (Some no_sos_fields) init_state =
     Inr (\<lparr>drivers = [],
           emergencies = [(0, \<lparr>e_id = 0, e_patientSocketId = ''p'', e_location = unknown_location,
                               e_severity = ''high'', e_type = ''accident'', e_status = Searching,
                               e_timestamp = 0, e_assignedDriver = None\<rparr>)],
           hospitals = [], objects = [], next_uuid = 1\<rparr>,
          [(''p'', EmergencyCreated 0 Searching), (''p'', EmergencyNoDrivers 0)])"
  by code_simp

text \<open>
  C8, as the server has it. A registration whose payload object lacks fields is processed
  like a complete one: an available driver is stored for the socket, with name
  \<^verbatim>\<open>Unknown Driver\<close>, vehicle \<^verbatim>\<open>MH-XX-XXXX\<close> and the Mumbai location in place of
  whatever is missing, and the socket is sent the acknowledgement with \<^verbatim>\<open>success: true\<close>.
  A new request whose payload object lacks fields is likewise stored in state searching,
  with location \<^verbatim>\<open>Unknown Location\<close>, severity \<^verbatim>\<open>high\<close> and type \<^verbatim>\<open>accident\<close> in place
  of whatever is missing, and its sender is sent the created acknowledgement first; the
  handler returns normally whenever every available driver has a location.
\<close>

theorem missing_fields_defaulted:
  "(\<exists>st' drv. driver_register sock (Some d) st = Inr (st', [(sock, DriverRegistered True drv)]) \<and>
       map_of (drivers st') sock = Some (length (objects st)) \<and>
       objects st' ! length (objects st) = drv \<and>
       d_socketId drv = sock \<and> d_status drv = Available \<and>
       (reg_name d = None \<longrightarrow> d_name drv = ''Unknown Driver'') \<and>
       (reg_vehicle d = None \<longrightarrow> d_vehicle drv = ''MH-XX-XXXX'') \<and>
       (reg_location d = None \<longrightarrow> d_location drv = Some mumbai)) \<and>
   ((\<forall>sid r. (sid, r) \<in> set (drivers st) \<and> d_status (objects st ! r) = Available \<longrightarrow>
        d_location (objects st ! r) \<noteq> None) \<longrightarrow>
      (\<exists>st' out. patient_sos psock now (Some s) st = Inr (st', out))) \<and>
   (\<forall>st' out. patient_sos psock now (Some s) st = Inr (st', out) \<longrightarrow>
      (\<exists>out' e. out = (psock, EmergencyCreated (next_uuid st) Searching) # out' \<and>
         map_of (emergencies st') (next_uuid st) = Some e \<and>
         e_patientSocketId e = psock \<and> e_status e = Searching \<and>
         (sos_location s = None \<longrightarrow> e_location e = unknown_location) \<and>
         (sos_severity s = None \<longrightarrow> e_severity e = ''high'') \<and>
         (sos_type s = None \<longrightarrow> e_type e = ''accident'')))"
proof (intro conjI allI impI)
  show "\<exists>st' drv. driver_register sock (Some d) st = Inr (st', [(sock, DriverRegistered True drv)]) \<and>
       map_of (drivers st') sock = Some (length (objects st)) \<and>
       objects st' ! length (objects st) = drv \<and>
       d_socketId drv = sock \<and> d_status drv = Available \<and>
       (reg_name d = None \<longrightarrow> d_name drv = ''Unknown Driver'') \<and>
       (reg_vehicle d = None \<longrightarrow> d_vehicle drv = ''MH-XX-XXXX'') \<and>
       (reg_location d = None \<longrightarrow> d_location drv = Some mumbai)"
    by (simp add: driver_register_def uuidv4_def Let_def update_conv' str_or_def obj_or_def)
next
  assume locs: "\<forall>sid r. (sid, r) \<in> set (drivers st) \<and> d_status (objects st ! r) = Available \<longrightarrow>
        d_location (objects st ! r) \<noteq> None"
  let ?e = "\<lparr>e_id = next_uuid st, e_patientSocketId = psock,
             e_location = obj_or (sos_location s) unknown_location,
             e_severity = str_or (sos_severity s) ''high'',
             e_type = str_or (sos_type s) ''accident'',
             e_status = Searching, e_timestamp = now, e_assignedDriver = None\<rparr>"
  let ?st2 = "st\<lparr>next_uuid := Suc (next_uuid st),
                 emergencies := AList.update (next_uuid st) ?e (emergencies st)\<rparr>"
  from locs have "\<forall>sid r. (sid, r) \<in> set (drivers ?st2) \<and> d_status (objects ?st2 ! r) = Available \<longrightarrow>
        d_location (objects ?st2 ! r) \<noteq> None"
    by simp
  from broadcast_defined [OF this, of ?e] obtain out where
    "broadcastToAvailableDrivers ?e ?st2 = Inr out" by (elim exE)
  then show "\<exists>st' out. patient_sos psock now (Some s) st = Inr (st', out)"
    by (simp add: patient_sos_def uuidv4_def Let_def)
next
  fix st' out
  assume "patient_sos psock now (Some s) st = Inr (st', out)"
  from sos_effect [OF this]
  show "\<exists>out' e. out = (psock, EmergencyCreated (next_uuid st) Searching) # out' \<and>
         map_of (emergencies st') (next_uuid st) = Some e \<and>
         e_patientSocketId e = psock \<and> e_status e = Searching \<and>
         (sos_location s = None \<longrightarrow> e_location e = unknown_location) \<and>
         (sos_severity s = None \<longrightarrow> e_severity e = ''high'') \<and>
         (sos_type s = None \<longrightarrow> e_type e = ''accident'')"
    by (auto simp: update_conv' str_or_def obj_or_def)
qed

theorem missing_fields_defaulted_witness:
  "reg_name no_fields = None \<and> reg_vehicle no_fields = None \<and> reg_location no_fields = None \<and>
   sos_location no_sos_fields = None \<and> sos_severity no_sos_fields = None \<and> sos_type no_sos_fields = None \<and>
   (\<exists>st' drv. driver_register ''d1'' (Some no_fields) init_state =
                Inr (st', [(''d1'', DriverRegistered True drv)]) \<and>
              map_of (drivers st') ''d1'' = Some 0 \<and> objects st' ! 0 = drv \<and>
              d_name drv = ''Unknown Driver'' \<and> d_vehicle drv = ''MH-XX-XXXX'' \<and>
              d_location drv = Some mumbai \<and> d_status drv = Available) \<and>
   (\<exists>st' out' e. patient_sos ''p'' 0 (Some no_sos_fields) init_state =
                   Inr (st', (''p'', EmergencyCreated 0 Searching) # out') \<and>
                 map_of (emergencies st') 0 = Some e \<and> e_status e = Searching \<and>
                 e_location e = unknown_location \<and> e_severity e = ''high'' \<and> e_type e = ''accident'')"
proof -
  have f: "reg_name no_fields = None" "reg_vehicle no_fields = None" "reg_location no_fields = None"
    "sos_location no_sos_fields = None" "sos_severity no_sos_fields = None" "sos_type no_sos_fields = None"
    by (simp_all add: no_fields_def no_sos_fields_def)
  have i: "length (objects init_state) = 0" "next_uuid init_state = 0" "drivers init_state = []"
    by (simp_all add: init_state_def)
  note main = missing_fields_defaulted [of "''d1''" no_fields init_state "''p''" 0 no_sos_fields]
  from main [THEN conjunct1] have 1:
    "\<exists>st' drv. driver_register ''d1'' (Some no_fields) init_state =
                Inr (st', [(''d1'', DriverRegistered True drv)]) \<and>
              map_of (drivers st') ''d1'' = Some 0 \<and> objects st' ! 0 = drv \<and>
              d_name drv = ''Unknown Driver'' \<and> d_vehicle drv = ''MH-XX-XXXX'' \<and>
              d_location drv = Some mumbai \<and> d_status drv = Available"
    unfolding i using f(1-3) by auto
  from main [THEN conjunct2, THEN conjunct1] obtain st' out where
    r: "patient_sos ''p'' 0 (Some no_sos_fields) init_state = Inr (st', out)"
    unfolding i by auto
  from main [THEN conjunct2, THEN conjunct2, THEN spec, THEN spec, THEN mp, OF r]
  have "\<exists>out' e. out = (''p'', EmergencyCreated 0 Searching) # out' \<and>
         map_of (emergencies st') 0 = Some e \<and> e_status e = Searching \<and>
         e_location e = unknown_location \<and> e_severity e = ''high'' \<and> e_type e = ''accident''"
    unfolding i using f(4-6) by auto
  with r have 2: "\<exists>st' out' e. patient_sos ''p'' 0 (Some no_sos_fields) init_state =
                   Inr (st', (''p'', EmergencyCreated 0 Searching) # out') \<and>
                 map_of (emergencies st') 0 = Some e \<and> e_status e = Searching \<and>
                 e_location e = unknown_location \<and> e_severity e = ''high'' \<and> e_type e = ''accident''"
    by auto
  show ?thesis using f 1 2 by (intro conjI)
qed

subsection \<open>C9: The distance estimator\<close>

text \<open>
  C9. \<^verbatim>\<open>calculateDistance\<close> is the haversine formula with radius 6371 evaluated in double
  arithmetic, printed with one decimal. It is symmetric whenever the engine's sine is odd
  (\<open>calculateDistance_symmetric\<close>) and gives \<^verbatim>\<open>0.0 km\<close> for a point and itself
  (\<open>calculateDistance_same_point\<close>). It does not always give a distance. For the antipodal
  points \<open>south_west\<close> \<open>(-12, 0)\<close> and \<open>north_east\<close> \<open>(12, 180)\<close>, with the sines and cosines
  the engine returns there, the haversine term \<open>a\<close> rounds to \<open>1 + 2\<^sup>-\<^sup>5\<^sup>2\<close>; the source
  takes \<^verbatim>\<open>Math.sqrt(1 - a)\<close> without clamping \<open>a\<close>, which is \<open>NaN\<close>, and the result is the
  string \<^verbatim>\<open>NaN km\<close> where the great-circle distance is 20015.1 km.
\<close>

theorem calculateDistance_antipodal:
  assumes sin_lat: "m_sin M (3772926801081835 / 2 ^ 54) = 3745404053171323 / 2 ^ 54"
    and cos_lat1: "m_cos M (- (3772926801081835 / 2 ^ 54)) = 68831018284033 / 2 ^ 46"
    and cos_lat2: "m_cos M (3772926801081835 / 2 ^ 54) = 68831018284033 / 2 ^ 46"
    and sin_lng: "m_sin M (884279719003555 / 2 ^ 49) = 1"
  shows "calculateDistance M south_west north_east = ''NaN km''"
proof -
  have lat1: "fl (lat south_west) = Num (- 12)"
    using fl_neg [of 12] fl_12 by (simp add: south_west_def)
  have lat2: "fl (lat north_east) = Num 12"
    using fl_12 by (simp add: north_east_def)
  have lng1: "fl (lng south_west) = Num 0"
    by (simp add: south_west_def fl_def)
  have lng2: "fl (lng north_east) = Num 180"
    using fl_180 by (simp add: north_east_def)
  have dLat: "jdiv (deg2rad (jsub (fl (lat north_east)) (fl (lat south_west)))) (Num 2) =
              Num (3772926801081835 / 2 ^ 54)"
    unfolding lat1 lat2 sub_lat deg2rad_def pi_180 rad_24 by (rule half_lat)
  have dLon: "jdiv (deg2rad (jsub (fl (lng north_east)) (fl (lng south_west)))) (Num 2) =
              Num (884279719003555 / 2 ^ 49)"
    unfolding lng1 lng2 sub_lng deg2rad_def pi_180 rad_180 by (rule half_lng)
  have s1: "Math_sin M (Num (3772926801081835 / 2 ^ 54)) = Num (3745404053171323 / 2 ^ 54)"
    using sin_lat by simp
  have s2: "Math_sin M (Num (884279719003555 / 2 ^ 49)) = Num 1"
    using sin_lng by simp
  have c1: "Math_cos M (deg2rad (fl (lat south_west))) = Num (68831018284033 / 2 ^ 46)"
    unfolding lat1 deg2rad_def pi_180 rad_minus_12 using cos_lat1 by simp
  have c2: "Math_cos M (deg2rad (fl (lat north_east))) = Num (68831018284033 / 2 ^ 46)"
    unfolding lat2 deg2rad_def pi_180 rad_12 using cos_lat2 by simp
  have root: "Math_sqrt M (Num (- (1 / 2 ^ 52))) = NaN"
    by simp
  have atan: "Math_atan2 M (Math_sqrt M (Num (4503599627370497 / 2 ^ 52))) NaN = NaN"
    by simp
  show ?thesis
    unfolding calculateDistance_def Let_def dLat dLon s1 s2 c1 c2 sin_sq cos_sq cos_sq_one sum_a
      one_minus_a root atan
    by simp
qed

theorem calculateDistance_antipodal_witness:
  "m_sin engine (3772926801081835 / 2 ^ 54) = 3745404053171323 / 2 ^ 54 \<and>
   m_cos engine (- (3772926801081835 / 2 ^ 54)) = 68831018284033 / 2 ^ 46 \<and>
   m_cos engine (3772926801081835 / 2 ^ 54) = 68831018284033 / 2 ^ 46 \<and>
   m_sin engine (884279719003555 / 2 ^ 49) = 1 \<and>
   calculateDistance engine south_west north_east = ''NaN km''"
proof -
  have h: "m_sin engine (3772926801081835 / 2 ^ 54) = 3745404053171323 / 2 ^ 54"
    "m_cos engine (- (3772926801081835 / 2 ^ 54)) = 68831018284033 / 2 ^ 46"
    "m_cos engine (3772926801081835 / 2 ^ 54) = 68831018284033 / 2 ^ 46"
    "m_sin engine (884279719003555 / 2 ^ 49) = 1"
    by (simp_all add: engine_def)
  from calculateDistance_antipodal [OF h] h show ?thesis by (intro conjI)
qed

subsection \<open>C10: Cancel of a request owned by another socket\<close>

text \<open>
  C10. A cancel that names an existing request owned by another socket changes nothing and
  emits nothing: the state after is the state before, so the request, its assigned driver and
  every driver's status are as they were.
\<close>

theorem cancel_foreign_request_noop:
  assumes "map_of (emergencies st) k = Some e" and "e_patientSocketId e \<noteq> sock"
  shows "patient_cancel sock k st = Inr (st, [])"
  using assms by (simp add: patient_cancel_def)

theorem cancel_foreign_request_noop_witness:
  "map_option e_patientSocketId (map_of (emergencies (state_after one_driver_two_requests)) 1) = Some ''p'' \<and>
   patient_cancel ''d1'' 1 (state_after one_driver_two_requests) =
     Inr (state_after one_driver_two_requests, [])"
proof -
  let ?A = "state_after one_driver_two_requests"
  have e: "map_of (emergencies ?A) 1 = Some (the (map_of (emergencies ?A) 1))" by code_simp
  have p: "e_patientSocketId (the (map_of (emergencies ?A) 1)) \<noteq> ''d1''" by code_simp
  have p': "map_option e_patientSocketId (map_of (emergencies ?A) 1) = Some ''p''" by code_simp
  from cancel_foreign_request_noop [OF e p] p' show ?thesis by simp
qed

end
